theory Spec2Isabelle
  imports Main "HOL-Library.Sublist"
begin

section \<open>Strings of the script\<close>

text \<open>
  The script \<^verbatim>\<open>src/scripts/upcoming.js\<close> works on JavaScript strings. A string is modelled
  as a \<^typ>\<open>string\<close>, one \<^typ>\<open>char\<close> per UTF-16 code unit below 256. None of the
  script's patterns mentions a code unit above that range, apart from the white space
  class \<^verbatim>\<open>\s\<close>, of which the members below 256 are kept.
\<close>

definition is_digit :: "char \<Rightarrow> bool" where
  "is_digit c \<longleftrightarrow> c \<in> set ''0123456789''"

text \<open>
  The class \<^verbatim>\<open>[a-z]\<close> under the flag \<^verbatim>\<open>i\<close>: both cases of the 26 letters. Without
  the flag \<^verbatim>\<open>u\<close> no code unit from 128 on is folded onto an ASCII letter.
\<close>

definition is_alpha :: "char \<Rightarrow> bool" where
  "is_alpha c \<longleftrightarrow> c \<in> set ''abcdefghijklmnopqrstuvwxyzABCDEFGHIJKLMNOPQRSTUVWXYZ''"

text \<open>The class \<^verbatim>\<open>\s\<close>: tab, line feed, vertical tab, form feed, carriage return, space, no-break space.\<close>

definition is_space :: "char \<Rightarrow> bool" where
  "is_space c \<longleftrightarrow> c \<in> set [CHR 0x09, CHR 0x0A, CHR 0x0B, CHR 0x0C, CHR 0x0D, CHR 0x20, CHR 0xA0]"

definition to_upper :: "char \<Rightarrow> char" where
  "to_upper c =
     (case map_of (zip ''abcdefghijklmnopqrstuvwxyz'' ''ABCDEFGHIJKLMNOPQRSTUVWXYZ'') c of
        None \<Rightarrow> c
      | Some u \<Rightarrow> u)"

text \<open>\<^verbatim>\<open>s.startsWith(p)\<close>, the test behind \<^verbatim>\<open>includes\<close> and \<^verbatim>\<open>replace\<close>.\<close>

fun starts_with :: "string \<Rightarrow> string \<Rightarrow> bool" where
  "starts_with s [] = True"
| "starts_with [] (p # ps) = False"
| "starts_with (c # cs) (p # ps) = (c = p \<and> starts_with cs ps)"

text \<open>\<^verbatim>\<open>s.includes(p)\<close>: \<^verbatim>\<open>p\<close> occurs in \<^verbatim>\<open>s\<close> at some position; the comparison is case-sensitive.\<close>

fun js_includes :: "string \<Rightarrow> string \<Rightarrow> bool" where
  "js_includes [] p = starts_with [] p"
| "js_includes (c # cs) p = (starts_with (c # cs) p \<or> js_includes cs p)"

text \<open>\<^verbatim>\<open>s.replace(p, r)\<close> with a string pattern: the first occurrence only.\<close>

fun replace_first :: "string \<Rightarrow> string \<Rightarrow> string \<Rightarrow> string" where
  "replace_first [] p r = (if starts_with [] p then r else [])"
| "replace_first (c # cs) p r =
     (if starts_with (c # cs) p then r @ drop (length p) (c # cs)
      else c # replace_first cs p r)"

section \<open>Regular expressions\<close>

text \<open>
  A pattern is a function from the rest of the input to the list of the rests that
  remain after each way of matching a prefix, in the order in which a backtracking
  matcher tries them. The patterns of the script are built from character classes,
  sequence, alternative and the bounded repetition \<^verbatim>\<open>{m,n}\<close>.
\<close>

type_synonym rx = "string \<Rightarrow> string list"

definition rx_class :: "(char \<Rightarrow> bool) \<Rightarrow> rx" where
  "rx_class p s = (case s of [] \<Rightarrow> [] | c # cs \<Rightarrow> if p c then [cs] else [])"

definition rx_eps :: rx where
  "rx_eps s = [s]"

definition rx_then :: "rx \<Rightarrow> rx \<Rightarrow> rx" where
  "rx_then a b s = concat (map b (a s))"

definition rx_or :: "rx \<Rightarrow> rx \<Rightarrow> rx" where
  "rx_or a b s = a s @ b s"

definition rx_seq :: "rx list \<Rightarrow> rx" where
  "rx_seq rs = foldr rx_then rs rx_eps"

text \<open>\<^verbatim>\<open>a{m,n}\<close>: one more round while the upper bound allows it, a stop once the lower bound is met.\<close>

fun rx_rep :: "nat \<Rightarrow> nat \<Rightarrow> rx \<Rightarrow> rx" where
  "rx_rep m 0 a s = (if m = 0 then [s] else [])"
| "rx_rep m (Suc n) a s =
     concat (map (rx_rep (m - 1) n a) (a s)) @ (if m = 0 then [s] else [])"

text \<open>A literal character under the flag \<^verbatim>\<open>i\<close>, and a literal word.\<close>

definition rx_chr_i :: "char \<Rightarrow> rx" where
  "rx_chr_i x = rx_class (\<lambda>c. to_upper c = to_upper x)"

definition rx_word_i :: "string \<Rightarrow> rx" where
  "rx_word_i w = rx_seq (map rx_chr_i w)"

definition rx_chr :: "char \<Rightarrow> rx" where
  "rx_chr x = rx_class (\<lambda>c. c = x)"

text \<open>\<^verbatim>\<open>/^r$/.test(s)\<close>: some way of matching uses up the whole input.\<close>

definition rx_test :: "rx \<Rightarrow> string \<Rightarrow> bool" where
  "rx_test r s \<longleftrightarrow> [] \<in> set (r s)"

text \<open>
  \<^verbatim>\<open>s.replace(/r/, '')\<close> for a pattern without anchors: the leftmost position where
  \<^verbatim>\<open>r\<close> matches, and there the first way of matching.
\<close>

fun rx_remove_first :: "rx \<Rightarrow> string \<Rightarrow> string" where
  "rx_remove_first r [] = (case r [] of [] \<Rightarrow> [] | t # _ \<Rightarrow> t)"
| "rx_remove_first r (c # cs) =
     (case r (c # cs) of [] \<Rightarrow> c # rx_remove_first r cs | t # _ \<Rightarrow> t)"

subsection \<open>The patterns of the script (lines 36 to 46)\<close>

definition rx_digits :: "nat \<Rightarrow> nat \<Rightarrow> rx" where
  "rx_digits m n = rx_rep m n (rx_class is_digit)"

definition rx_ws :: rx where
  "rx_ws = rx_class is_space"

text \<open>\<^verbatim>\<open>([a-z]{3}|[a-z]{3,9})\<close>\<close>

definition rx_month_word :: rx where
  "rx_month_word = rx_or (rx_rep 3 3 (rx_class is_alpha)) (rx_rep 3 9 (rx_class is_alpha))"

text \<open>\<^verbatim>\<open>[0-9]{2}:[0-9]{2}\<close>\<close>

definition rx_clock :: rx where
  "rx_clock = rx_seq [rx_digits 2 2, rx_chr CHR '':'', rx_digits 2 2]"

text \<open>\<^verbatim>\<open>/^[0-9]{4}\s([a-z]{3}|[a-z]{3,9})\s[0-9]{1,2}\s(\[[0-9]{2}:[0-9]{2}\]|[0-9]{2}:[0-9]{2})$/i\<close>\<close>

definition hour :: "string \<Rightarrow> bool" where
  "hour = rx_test (rx_seq [rx_digits 4 4, rx_ws, rx_month_word, rx_ws, rx_digits 1 2, rx_ws,
     rx_or (rx_seq [rx_chr CHR ''['', rx_clock, rx_chr CHR '']'']) rx_clock])"

text \<open>\<^verbatim>\<open>/^[0-9]{4}\s([a-z]{3}|[a-z]{3,9})\s[0-9]{1,2}$/i\<close>\<close>

definition day :: "string \<Rightarrow> bool" where
  "day = rx_test (rx_seq [rx_digits 4 4, rx_ws, rx_month_word, rx_ws, rx_digits 1 2])"

text \<open>\<^verbatim>\<open>/^[0-9]{4}\s([a-z]{3}|[a-z]{3,9})$/i\<close>\<close>

definition month :: "string \<Rightarrow> bool" where
  "month = rx_test (rx_seq [rx_digits 4 4, rx_ws, rx_month_word])"

text \<open>\<^verbatim>\<open>/^[0-9]{4}$/i\<close>\<close>

definition year :: "string \<Rightarrow> bool" where
  "year = rx_test (rx_digits 4 4)"

text \<open>\<^verbatim>\<open>/^[0-9]{4}\sTBD$/i\<close>\<close>

definition year_tbd :: "string \<Rightarrow> bool" where
  "year_tbd = rx_test (rx_seq [rx_digits 4 4, rx_ws, rx_word_i ''TBD''])"

text \<open>\<^verbatim>\<open>/^[0-9]{4}\s([a-z]{3}|[a-z]{3,9})\sTBD$/i\<close>\<close>

definition month_tbd :: "string \<Rightarrow> bool" where
  "month_tbd = rx_test (rx_seq [rx_digits 4 4, rx_ws, rx_month_word, rx_ws, rx_word_i ''TBD''])"

text \<open>\<^verbatim>\<open>(early|mid|late)\<close>\<close>

definition rx_vague :: rx where
  "rx_vague = rx_or (rx_word_i ''early'') (rx_or (rx_word_i ''mid'') (rx_word_i ''late''))"

text \<open>\<^verbatim>\<open>/^[0-9]{4}\s(early|mid|late)\s([a-z]{3}|[a-z]{3,9})$/i\<close>\<close>

definition month_vague :: "string \<Rightarrow> bool" where
  "month_vague = rx_test (rx_seq [rx_digits 4 4, rx_ws, rx_vague, rx_ws, rx_month_word])"

section \<open>The date classification cascade (lines 96 to 153)\<close>

text \<open>
  The cascade sets \<^verbatim>\<open>precision[manifest_index]\<close>, \<^verbatim>\<open>tbd\<close> and \<^verbatim>\<open>is_tentative\<close>; its last
  branch logs and returns from the callback, which is \<^const>\<open>None\<close> here. The three
  values are read again only in the same round of the loop, after the cascade has set
  them, so they are modelled as the result of the cascade. The first three branches also
  rewrite the local \<^verbatim>\<open>mdate\<close>, which is not read again.
\<close>

record date_class =
  precision :: string
  tbd :: bool
  is_tentative :: bool

definition classify_date :: "string \<Rightarrow> date_class option" where
  "classify_date mdate =
     (if js_includes mdate ''Q'' then
        Some \<lparr>precision = ''quarter'', tbd = True, is_tentative = True\<rparr>
      else if js_includes mdate ''H1'' then
        Some \<lparr>precision = ''half'', tbd = True, is_tentative = True\<rparr>
      else if js_includes mdate ''H2'' then
        Some \<lparr>precision = ''half'', tbd = True, is_tentative = True\<rparr>
      else if year_tbd mdate then
        Some \<lparr>precision = ''year'', tbd = True, is_tentative = True\<rparr>
      else if year mdate then
        Some \<lparr>precision = ''year'', tbd = True, is_tentative = True\<rparr>
      else if month_tbd mdate then
        Some \<lparr>precision = ''month'', tbd = True, is_tentative = True\<rparr>
      else if month_vague mdate then
        Some \<lparr>precision = ''month'', tbd = True, is_tentative = True\<rparr>
      else if month mdate then
        Some \<lparr>precision = ''month'', tbd = True, is_tentative = True\<rparr>
      else if day mdate then
        Some \<lparr>precision = ''day'', tbd = False, is_tentative = True\<rparr>
      else if hour mdate then
        Some \<lparr>precision = ''hour'', tbd = False, is_tentative = False\<rparr>
      else None)"

section \<open>Sites and time zones\<close>

text \<open>
  Lines 171 to 177: the time zone of the local time, chosen from \<^verbatim>\<open>location\<close>. A
  \<^verbatim>\<open>site_id\<close> that is \<^verbatim>\<open>null\<close> or missing is \<^const>\<open>None\<close>; it equals none of the
  five identifiers.
\<close>

definition time_zone :: "string option \<Rightarrow> string" where
  "time_zone location =
     (if location = Some ''ccafs_slc_40'' \<or> location = Some ''ksc_lc_39a''
         \<or> location = Some ''ccafs_lc_13'' then ''America/New_York''
      else if location = Some ''vafb_slc_4e'' \<or> location = Some ''vafb_slc_4w'' then
        ''America/Los_Angeles''
      else ''America/Chicago'')"

text \<open>
  Lines 183 to 204: \<^verbatim>\<open>site_id\<close>, \<^verbatim>\<open>site_name\<close> and \<^verbatim>\<open>site_name_long\<close> start as \<^verbatim>\<open>null\<close>
  and are set by comparing the launchpad label with \<^verbatim>\<open>===\<close>.
\<close>

definition resolve_site :: "string \<Rightarrow> string option \<times> string option \<times> string option" where
  "resolve_site launchpad =
     (if launchpad = ''SLC-40'' \<or> launchpad = ''SLC-40 / LC-39A'' \<or> launchpad = ''SLC-40 / BC'' then
        (Some ''ccafs_slc_40'', Some ''CCAFS SLC 40'',
         Some ''Cape Canaveral Air Force Station Space Launch Complex 40'')
      else if launchpad = ''LC-39A'' \<or> launchpad = ''LC-39A / BC''
          \<or> launchpad = ''LC-39A / SLC-40'' then
        (Some ''ksc_lc_39a'', Some ''KSC LC 39A'',
         Some ''Kennedy Space Center Historic Launch Complex 39A'')
      else if launchpad = ''SLC-4E'' then
        (Some ''vafb_slc_4e'', Some ''VAFB SLC 4E'',
         Some ''Vandenberg Air Force Base Space Launch Complex 4E'')
      else if launchpad = ''BC'' \<or> launchpad = ''BC / LC-39A'' \<or> launchpad = ''BC / SLC-40'' then
        (Some ''stls'', Some ''STLS'', Some ''SpaceX South Texas Launch Site'')
      else (None, None, None))"

section \<open>The collaborators of the script\<close>

text \<open>
  The libraries \<^verbatim>\<open>fuzzball\<close> and \<^verbatim>\<open>moment-timezone\<close> and the replies of the database are
  not part of the repository; they are parameters of the model.
  \<^item> \<open>partial_ratio\<close> is \<^verbatim>\<open>fuzz.partial_ratio\<close>, a score from 0 to 100.
  \<^item> \<open>moment_year\<close>, \<open>moment_unix\<close> and \<open>moment_iso\<close> are \<^verbatim>\<open>zone.year().toString()\<close>,
    \<^verbatim>\<open>zone.unix()\<close> and \<^verbatim>\<open>zone.toISOString()\<close> of the date parsed from the string handed
    to \<^verbatim>\<open>moment\<close> with the five formats of line 165 (\<^const>\<open>None\<close> for an invalid date).
  \<^item> \<open>moment_local zone_name s\<close> is \<^verbatim>\<open>time.tz(zone_name).format()\<close> of the same date.
  \<^item> \<open>update_reply k\<close> is what the promise of the \<open>k\<close>-th call of \<^verbatim>\<open>col.updateOne\<close> settles
    to: \<^verbatim>\<open>result.nModified\<close>, or \<^const>\<open>None\<close> for a rejection.
\<close>

record ext =
  partial_ratio :: "string \<Rightarrow> string \<Rightarrow> nat"
  moment_year :: "string \<Rightarrow> string"
  moment_unix :: "string \<Rightarrow> int option"
  moment_iso :: "string \<Rightarrow> string option"
  moment_local :: "string \<Rightarrow> string \<Rightarrow> string"
  update_reply :: "nat \<Rightarrow> nat option"

text \<open>
  A document of the collection \<^verbatim>\<open>launch\<close>, with the fields the script reads:
  \<^verbatim>\<open>flight_number\<close>, \<^verbatim>\<open>upcoming\<close>, \<^verbatim>\<open>rocket.second_stage.payloads[0].payload_id\<close> and
  \<^verbatim>\<open>launch_site.site_id\<close>. A flight number is a JavaScript number that holds an integer; it
  is an \<^typ>\<open>int\<close> here, which is exact below \<open>2 ^ 53\<close>.
\<close>

record launch =
  launch_flight_number :: int
  launch_upcoming :: bool
  payload_id :: string
  launch_site_id :: "string option"

text \<open>The object \<^verbatim>\<open>calculatedTimes\<close> of lines 207 to 220, the \<^verbatim>\<open>$set\<close> of an update.\<close>

record calculated_times =
  flight_number :: int
  launch_year :: string
  launch_date_unix :: "int option"
  launch_date_utc :: "string option"
  launch_date_local :: string
  ct_is_tentative :: bool
  tentative_max_precision :: string
  ct_tbd :: bool
  site_id :: "string option"
  site_name :: "string option"
  site_name_long :: "string option"

datatype log_entry = Msg string | Obj calculated_times

text \<open>
  The arrays the loop writes. An entry of \<open>promises\<close> stands for one call
  \<^verbatim>\<open>col.updateOne({'rocket.second_stage.payloads.payload_id': payload}, {$set: calculatedTimes})\<close>:
  line 225 makes the call, which queues the update in the driver, and pushes the promise
  the call returns.
\<close>

record state =
  flight_numbers :: "int list"
  promises :: "(string \<times> calculated_times) list"
  console :: "log_entry list"

definition init_state :: state where
  "init_state = \<lparr>flight_numbers = [], promises = [], console = []\<rparr>"

section \<open>The manifest\<close>

text \<open>\<^verbatim>\<open>manifest.split('\n')\<close>\<close>

fun split_nl :: "string \<Rightarrow> string list" where
  "split_nl [] = [[]]"
| "split_nl (c # cs) =
     (if c = CHR 0x0A then [] # split_nl cs
      else (case split_nl cs of [] \<Rightarrow> [[c]] | l # ls \<Rightarrow> (c # l) # ls))"

definition manifest_row :: "string \<Rightarrow> string list" where
  "manifest_row manifest = filter (\<lambda>v. v \<noteq> []) (split_nl manifest)"

text \<open>\<^verbatim>\<open>manifest_row.filter((value, index) => (index + k) % 8 === 0)\<close>\<close>

definition pick8 :: "nat \<Rightarrow> 'a list \<Rightarrow> 'a list" where
  "pick8 k row = map snd (filter (\<lambda>(index, v). (index + k) mod 8 = 0) (enumerate 0 row))"

definition manifest_dates :: "string list \<Rightarrow> string list" where
  "manifest_dates row = pick8 0 row"

definition manifest_payloads :: "string list \<Rightarrow> string list" where
  "manifest_payloads row = pick8 3 row"

definition manifest_launchpads :: "string list \<Rightarrow> string list" where
  "manifest_launchpads row = pick8 6 row"

section \<open>The matching loop (lines 91 to 228)\<close>

text \<open>\<^verbatim>\<open>xs.forEach((x, index) => ...)\<close>, the callback changing the state.\<close>

definition for_each :: "('a \<Rightarrow> nat \<Rightarrow> 's \<Rightarrow> 's) \<Rightarrow> 'a list \<Rightarrow> 's \<Rightarrow> 's" where
  "for_each f xs = fold (\<lambda>(index, x). f x index) (enumerate 0 xs)"

text \<open>Line 164: the string handed to the date parser.\<close>

definition parsed_date :: "string \<Rightarrow> string" where
  "parsed_date date =
     replace_first (replace_first (rx_remove_first rx_vague date) ''['' '''') '']'' ''''
       @ '' +0000''"

text \<open>Lines 157 to 220: the object \<^verbatim>\<open>calculatedTimes\<close> built for a matched row.\<close>

definition calculated ::
  "ext \<Rightarrow> int \<Rightarrow> string option \<Rightarrow> string \<Rightarrow> string \<Rightarrow> nat \<Rightarrow> date_class \<Rightarrow> calculated_times" where
  "calculated e base_flight_number location date launchpad manifest_index c =
     (let parsed = parsed_date date;
          localTime = moment_local e (time_zone location) parsed;
          (sid, sname, sname_long) = resolve_site launchpad
      in \<lparr>flight_number = base_flight_number + int manifest_index,
          launch_year = moment_year e parsed,
          launch_date_unix = moment_unix e parsed,
          launch_date_utc = moment_iso e parsed,
          launch_date_local = localTime,
          ct_is_tentative = is_tentative c,
          tentative_max_precision = precision c,
          ct_tbd = tbd c,
          site_id = sid,
          site_name = sname,
          site_name_long = sname_long\<rparr>)"

text \<open>
  The callback of the inner loop for one payload and one manifest row. \<open>dates\<close> and
  \<open>launchpads\<close> are \<^verbatim>\<open>manifest_dates\<close> and \<^verbatim>\<open>manifest_launchpads\<close>; both are at least as
  long as \<^verbatim>\<open>manifest_payloads\<close>, and \<open>sites\<close> is as long as \<^verbatim>\<open>payloads\<close>, so the three
  reads by index are in range (lemmas \<open>payloads_le_launchpads\<close> and
  \<open>launchpads_le_dates\<close>). The branch that finds no pattern logs and returns: nothing
  is pushed.
\<close>

definition match_body ::
  "ext \<Rightarrow> int \<Rightarrow> string option list \<Rightarrow> string list \<Rightarrow> string list \<Rightarrow>
   string \<Rightarrow> nat \<Rightarrow> string \<Rightarrow> nat \<Rightarrow> state \<Rightarrow> state" where
  "match_body e base_flight_number sites dates launchpads
       payload payload_index manifest_payload manifest_index st =
     (if partial_ratio e payload manifest_payload = 100 then
        (case classify_date (dates ! manifest_index) of
           None \<Rightarrow>
             st\<lparr>console := console st
                  @ [Msg ''Date did not match any of the existing regular expressions'']\<rparr>
         | Some c \<Rightarrow>
             (let location = sites ! payload_index;
                  date = dates ! manifest_index;
                  calculatedTimes =
                    calculated e base_flight_number location date
                      (launchpads ! manifest_index) manifest_index c
              in \<lparr>flight_numbers = flight_numbers st @ [base_flight_number + int manifest_index],
                  promises = promises st @ [(payload, calculatedTimes)],
                  console = console st
                    @ [Msg date, Msg (payload @ '' : '' @ manifest_payload),
                       Msg (launchpads ! manifest_index), Obj calculatedTimes, Msg []]\<rparr>))
      else st)"

definition match_loop ::
  "ext \<Rightarrow> int \<Rightarrow> string list \<Rightarrow> string option list \<Rightarrow> string list \<Rightarrow> string list \<Rightarrow>
   string list \<Rightarrow> state \<Rightarrow> state" where
  "match_loop e base_flight_number payloads sites dates mpayloads launchpads =
     for_each (\<lambda>payload payload_index.
       for_each (\<lambda>manifest_payload manifest_index.
         match_body e base_flight_number sites dates launchpads
           payload payload_index manifest_payload manifest_index) mpayloads) payloads"

section \<open>The duplicate check and the report (lines 230 to 246)\<close>

datatype status = Completed | Exited nat | Threw

text \<open>
  What a run leaves behind. \<open>update_calls\<close> are the calls of \<^verbatim>\<open>col.updateOne\<close> the script
  has made, each with the payload of its filter and its \<^verbatim>\<open>$set\<close> object, in the order of
  the calls. \<open>submitted\<close> are the updates that have gone out to the database. The driver
  does not write inside the call: it queues the operation and sends it from a later turn
  of the event loop. \<open>printed\<close> are the lines of the console.
\<close>

record outcome =
  status :: status
  update_calls :: "(string \<times> calculated_times) list"
  submitted :: "(string \<times> calculated_times) list"
  printed :: "log_entry list"

text \<open>\<^verbatim>\<open>payloads[index]\<close>, which is \<^verbatim>\<open>undefined\<close> past the end, and its text in a template string.\<close>

definition label_at :: "string list \<Rightarrow> nat \<Rightarrow> string option" where
  "label_at payloads index = (if index < length payloads then Some (payloads ! index) else None)"

definition render :: "string option \<Rightarrow> string" where
  "render v = (case v of None \<Rightarrow> ''undefined'' | Some s \<Rightarrow> s)"

definition report :: "string list \<Rightarrow> nat list \<Rightarrow> log_entry list" where
  "report payloads output =
     map (\<lambda>(index, nModified).
            if nModified \<noteq> 0 then Msg (render (label_at payloads index) @ '' UPDATED'')
            else Msg (render (label_at payloads index)))
       (enumerate 0 output)"

text \<open>
  Line 231 compares the number of distinct flight numbers with the number of flight
  numbers. The loop and the check run in one turn of the event loop, with no \<^verbatim>\<open>await\<close>
  between line 91 and line 234, so \<^verbatim>\<open>process.exit(1)\<close> ends the process while the updates
  of the calls are still queued: none has gone out. Otherwise \<^verbatim>\<open>await Promise.all\<close> gives
  the turn back, the queued updates go out, and the function waits for every promise; one
  rejection rejects the whole and the function throws before the report.
\<close>

definition finish :: "ext \<Rightarrow> string list \<Rightarrow> state \<Rightarrow> outcome" where
  "finish e payloads st =
     (if length (remdups (flight_numbers st)) < length (flight_numbers st) then
        \<lparr>status = Exited 1, update_calls = promises st, submitted = [],
         printed = console st @ [Msg ''Duplicate flight numbers found'']\<rparr>
      else
        (case those (map (update_reply e) [0..<length (promises st)]) of
           None \<Rightarrow>
             \<lparr>status = Threw, update_calls = promises st, submitted = promises st,
              printed = console st\<rparr>
         | Some output \<Rightarrow>
             \<lparr>status = Completed, update_calls = promises st, submitted = promises st,
              printed = console st @ report payloads output\<rparr>))"

section \<open>The whole script\<close>

text \<open>
  \<open>col\<close> is the collection and \<open>manifest\<close> the text of the manifest table. The two queries
  of lines 58 and 62 filter on \<^verbatim>\<open>upcoming\<close> and sort on \<^verbatim>\<open>flight_number\<close>, ascending and
  descending. \<^verbatim>\<open>past_launches[0].flight_number\<close> throws a \<^verbatim>\<open>TypeError\<close> when no document
  has \<^verbatim>\<open>upcoming: false\<close>.
\<close>

definition find_upcoming :: "launch list \<Rightarrow> launch list" where
  "find_upcoming col = sort_key launch_flight_number (filter launch_upcoming col)"

definition find_past :: "launch list \<Rightarrow> launch list" where
  "find_past col = rev (sort_key launch_flight_number (filter (\<lambda>l. \<not> launch_upcoming l) col))"

text \<open>Line 63: \<^verbatim>\<open>past_launches[0].flight_number + 1\<close>.\<close>

definition base_flight_number :: "launch list \<Rightarrow> int option" where
  "base_flight_number past_launches =
     (case past_launches of [] \<Rightarrow> None | past # _ \<Rightarrow> Some (launch_flight_number past + 1))"

definition run :: "ext \<Rightarrow> launch list \<Rightarrow> string \<Rightarrow> outcome" where
  "run e col manifest =
     (let launches = find_upcoming col;
          past_launches = find_past col
      in case base_flight_number past_launches of
           None \<Rightarrow> \<lparr>status = Threw, update_calls = [], submitted = [], printed = []\<rparr>
         | Some base \<Rightarrow>
             (let payloads = map payload_id launches;
                  sites = map launch_site_id launches;
                  row = manifest_row manifest
              in finish e payloads
                   (match_loop e base payloads sites (manifest_dates row)
                      (manifest_payloads row) (manifest_launchpads row) init_state)))"

section \<open>Notions of the statements\<close>

text \<open>
  The pairs of a payload index and a manifest index in the order in which the two nested
  loops visit them, the two tests a pair has to pass before line 225 is reached, and the
  update that is submitted for it.
\<close>

definition loop_pairs :: "nat \<Rightarrow> nat \<Rightarrow> (nat \<times> nat) list" where
  "loop_pairs n m = concat (map (\<lambda>i. map (\<lambda>j. (i, j)) [0..<m]) [0..<n])"

definition scored :: "ext \<Rightarrow> string list \<Rightarrow> string list \<Rightarrow> nat \<times> nat \<Rightarrow> bool" where
  "scored e payloads mpayloads ij \<longleftrightarrow>
     partial_ratio e (payloads ! fst ij) (mpayloads ! snd ij) = 100"

definition dated :: "string list \<Rightarrow> nat \<times> nat \<Rightarrow> bool" where
  "dated dates ij \<longleftrightarrow> classify_date (dates ! snd ij) \<noteq> None"

definition update_of ::
  "ext \<Rightarrow> int \<Rightarrow> string list \<Rightarrow> string option list \<Rightarrow> string list \<Rightarrow> string list \<Rightarrow>
   nat \<times> nat \<Rightarrow> string \<times> calculated_times" where
  "update_of e b payloads sites dates launchpads ij =
     (payloads ! fst ij,
      calculated e b (sites ! fst ij) (dates ! snd ij) (launchpads ! snd ij) (snd ij)
        (the (classify_date (dates ! snd ij))))"

text \<open>The words of a string: the pieces between its white space characters.\<close>

fun toks :: "string \<Rightarrow> string list" where
  "toks [] = [[]]"
| "toks (c # cs) =
     (if is_space c then [] # toks cs
      else (case toks cs of [] \<Rightarrow> [[c]] | t # ts \<Rightarrow> (c # t) # ts))"

text \<open>The labels that lines 188 to 200 compare the launchpad with.\<close>

definition known_launchpads :: "string list" where
  "known_launchpads =
     [''SLC-40'', ''SLC-40 / LC-39A'', ''SLC-40 / BC'',
      ''LC-39A'', ''LC-39A / BC'', ''LC-39A / SLC-40'',
      ''SLC-4E'',
      ''BC'', ''BC / LC-39A'', ''BC / SLC-40'']"

text \<open>
  The cascade as the specification describes it (section 4.1 and the first design note):
  an ordered list of a pattern with its tier and flags, of which the first match is
  returned. The rows are the ten branches of the code, in the order of the code.
\<close>

definition cascade :: "((string \<Rightarrow> bool) \<times> date_class) list" where
  "cascade =
     [((\<lambda>s. js_includes s ''Q''), \<lparr>precision = ''quarter'', tbd = True, is_tentative = True\<rparr>),
      ((\<lambda>s. js_includes s ''H1''), \<lparr>precision = ''half'', tbd = True, is_tentative = True\<rparr>),
      ((\<lambda>s. js_includes s ''H2''), \<lparr>precision = ''half'', tbd = True, is_tentative = True\<rparr>),
      (year_tbd, \<lparr>precision = ''year'', tbd = True, is_tentative = True\<rparr>),
      (year, \<lparr>precision = ''year'', tbd = True, is_tentative = True\<rparr>),
      (month_tbd, \<lparr>precision = ''month'', tbd = True, is_tentative = True\<rparr>),
      (month_vague, \<lparr>precision = ''month'', tbd = True, is_tentative = True\<rparr>),
      (month, \<lparr>precision = ''month'', tbd = True, is_tentative = True\<rparr>),
      (day, \<lparr>precision = ''day'', tbd = False, is_tentative = True\<rparr>),
      (hour, \<lparr>precision = ''hour'', tbd = False, is_tentative = False\<rparr>)]"

definition first_match :: "((string \<Rightarrow> bool) \<times> date_class) list \<Rightarrow> string \<Rightarrow> date_class option" where
  "first_match table s = map_option snd (find (\<lambda>row. fst row s) table)"

text \<open>
  The number of updates the loop submits for a payload, and the test that every line of
  the report names the payload of the update it reports on.
\<close>

definition updates_for :: "ext \<Rightarrow> string list \<Rightarrow> string list \<Rightarrow> string \<Rightarrow> nat" where
  "updates_for e mpayloads dates p =
     length (filter (\<lambda>j. partial_ratio e p (mpayloads ! j) = 100
                          \<and> classify_date (dates ! j) \<noteq> None) [0..<length mpayloads])"

definition labels_right :: "string list \<Rightarrow> (string \<times> calculated_times) list \<Rightarrow> bool" where
  "labels_right payloads sent \<longleftrightarrow>
     list_all (\<lambda>k. label_at payloads k = Some (fst (sent ! k))) [0..<length sent]"

text \<open>
  The state after the loop in a run, or \<^const>\<open>None\<close> when line 63 throws, and the payload
  identifiers of the upcoming records, which label the report.
\<close>

definition run_payloads :: "launch list \<Rightarrow> string list" where
  "run_payloads col = map payload_id (find_upcoming col)"

definition run_state :: "ext \<Rightarrow> launch list \<Rightarrow> string \<Rightarrow> state option" where
  "run_state e col manifest =
     map_option (\<lambda>base.
         match_loop e base (run_payloads col) (map launch_site_id (find_upcoming col))
           (manifest_dates (manifest_row manifest)) (manifest_payloads (manifest_row manifest))
           (manifest_launchpads (manifest_row manifest)) init_state)
       (base_flight_number (find_past col))"

text \<open>The number of updates of a run for a payload.\<close>

definition run_updates_for :: "ext \<Rightarrow> string \<Rightarrow> string \<Rightarrow> nat" where
  "run_updates_for e manifest p =
     updates_for e (manifest_payloads (manifest_row manifest))
       (manifest_dates (manifest_row manifest)) p"

text \<open>
  Modelled from the spec: the quarter and half families of the table of section 4.1,
  \<^verbatim>\<open>YYYY Q<n>\<close> and \<^verbatim>\<open>YYYY H1\<close> or \<^verbatim>\<open>YYYY H2\<close>. The source has no pattern for them: lines 98,
  104 and 110 test containment.
\<close>

definition quarter_family :: "string \<Rightarrow> bool" where
  "quarter_family = rx_test (rx_seq [rx_digits 4 4, rx_ws, rx_chr CHR ''Q'', rx_digits 1 1])"

definition half_family :: "string \<Rightarrow> bool" where
  "half_family = rx_test (rx_seq [rx_digits 4 4, rx_ws, rx_chr CHR ''H'',
     rx_or (rx_chr CHR ''1'') (rx_chr CHR ''2'')])"

text \<open>
  Modelled from the spec: the month of the day and hour families. Section 4.1 has
  \<^verbatim>\<open>YYYY <month> <day>\<close> and \<^verbatim>\<open>YYYY <month> <day> [HH:mm]\<close> with month names in their
  three-letter and full-length forms, in either case. The names are those of the date
  library, which the source does not list; its patterns take any three to nine letters.
\<close>

definition month_names :: "string list" where
  "month_names =
     [''JAN'', ''FEB'', ''MAR'', ''APR'', ''MAY'', ''JUN'',
      ''JUL'', ''AUG'', ''SEP'', ''OCT'', ''NOV'', ''DEC'',
      ''JANUARY'', ''FEBRUARY'', ''MARCH'', ''APRIL'', ''JUNE'', ''JULY'',
      ''AUGUST'', ''SEPTEMBER'', ''OCTOBER'', ''NOVEMBER'', ''DECEMBER'']"

definition month_name :: "string \<Rightarrow> bool" where
  "month_name w \<longleftrightarrow> map to_upper w \<in> set month_names"

definition month_word :: "string \<Rightarrow> string" where
  "month_word s = (case toks s of y # w # rest \<Rightarrow> w | _ \<Rightarrow> [])"

definition day_family :: "string \<Rightarrow> bool" where
  "day_family s \<longleftrightarrow> day s \<and> month_name (month_word s)"

definition hour_family :: "string \<Rightarrow> bool" where
  "hour_family s \<longleftrightarrow> hour s \<and> month_name (month_word s)"

subsection \<open>Sample inputs\<close>

text \<open>
  A scorer that gives 100 when the payload identifier occurs in the manifest label and 50
  otherwise, a date library that only echoes its input, and a database that modifies one
  document for every update.
\<close>

definition sample_ext :: ext where
  "sample_ext =
     \<lparr>partial_ratio = (\<lambda>payload label. if js_includes label payload then 100 else 50),
      moment_year = take 4,
      moment_unix = (\<lambda>s. None),
      moment_iso = (\<lambda>s. None),
      moment_local = (\<lambda>zone s. zone),
      update_reply = (\<lambda>k. Some 1)\<rparr>"

text \<open>
  A scorer that compares the two strings whichever is the longer: 100 when one of them
  occurs in the other, as a partial ratio gives for a string and a longer one that contains
  it, and 50 otherwise.
\<close>

definition containment_ext :: ext where
  "containment_ext =
     sample_ext\<lparr>partial_ratio :=
       (\<lambda>payload label. if js_includes label payload \<or> js_includes payload label
                          then 100 else 50)\<rparr>"

text \<open>A manifest table with one line of text per cell, eight cells per row.\<close>

definition table_text :: "string list list \<Rightarrow> string" where
  "table_text rows = concat (map (\<lambda>cell. cell @ [CHR 0x0A]) (concat rows))"

definition sample_row :: "string \<Rightarrow> string \<Rightarrow> string \<Rightarrow> string list" where
  "sample_row date launchpad payload =
     [date, ''F9'', launchpad, ''LEO'', ''Customer'', payload, ''kg'', ''notes'']"

definition sample_launch :: "int \<Rightarrow> bool \<Rightarrow> string \<Rightarrow> string \<Rightarrow> launch" where
  "sample_launch n up p site =
     \<lparr>launch_flight_number = n, launch_upcoming = up, payload_id = p,
      launch_site_id = Some site\<rparr>"

text \<open>Three collections: one flown launch, and the upcoming launches of the name.\<close>

definition col_alpha :: "launch list" where
  "col_alpha =
     [sample_launch 49 False ''Old'' ''ccafs_slc_40'',
      sample_launch 60 True ''Alpha'' ''ccafs_slc_40'']"

definition col_alpha_bravo :: "launch list" where
  "col_alpha_bravo =
     [sample_launch 49 False ''Old'' ''ccafs_slc_40'',
      sample_launch 60 True ''Alpha'' ''ccafs_slc_40'',
      sample_launch 61 True ''Bravo'' ''ccafs_slc_40'']"

definition col_alpha_alpha1 :: "launch list" where
  "col_alpha_alpha1 =
     [sample_launch 49 False ''Old'' ''ccafs_slc_40'',
      sample_launch 60 True ''Alpha'' ''ccafs_slc_40'',
      sample_launch 61 True ''Alpha 1'' ''ccafs_slc_40'']"

text \<open>A manifest with one row for a payload, and one with two rows.\<close>

definition one_row :: "string \<Rightarrow> string" where
  "one_row label = table_text [sample_row ''2020 Dec'' ''SLC-40'' label]"

definition two_rows :: "string \<Rightarrow> string \<Rightarrow> string" where
  "two_rows label label' =
     table_text [sample_row ''2020 Dec'' ''SLC-40'' label, sample_row ''2021'' ''SLC-40'' label']"

section \<open>The loops add to the arrays\<close>

lemma fold_enumerate_append:
  assumes step: "\<And>x k st. proj (f x k st) = proj st @ g x k"
  shows "proj (fold (\<lambda>(k, x). f x k) (enumerate n xs) st)
         = proj st @ concat (map (\<lambda>(k, x). g x k) (enumerate n xs))"
proof (induction xs arbitrary: n st)
  case Nil
  show ?case by simp
next
  case (Cons x xs)
  have "proj (fold (\<lambda>(k, x). f x k) (enumerate n (x # xs)) st)
      = proj (fold (\<lambda>(k, x). f x k) (enumerate (Suc n) xs) (f x n st))"
    by simp
  also have "\<dots> = proj (f x n st) @ concat (map (\<lambda>(k, x). g x k) (enumerate (Suc n) xs))"
    by (rule Cons.IH)
  also have "\<dots> = (proj st @ g x n) @ concat (map (\<lambda>(k, x). g x k) (enumerate (Suc n) xs))"
    by (subst step) (rule refl)
  also have "\<dots> = proj st @ concat (map (\<lambda>(k, x). g x k) (enumerate n (x # xs)))"
    by simp
  finally show ?case .
qed

lemma for_each_append:
  assumes "\<And>x k st. proj (f x k st) = proj st @ g x k"
  shows "proj (for_each f xs st) = proj st @ concat (map (\<lambda>(k, x). g x k) (enumerate 0 xs))"
  unfolding for_each_def using assms by (rule fold_enumerate_append)

lemma enumerate_nth: "enumerate 0 xs = map (\<lambda>i. (i, xs ! i)) [0..<length xs]"
  by (rule nth_equalityI) (simp_all add: nth_enumerate_eq)

lemma body_promises:
  "promises (match_body e b sites dates lps p i m j st) = promises st @
     (if partial_ratio e p m = 100 \<and> classify_date (dates ! j) \<noteq> None
      then [(p, calculated e b (sites ! i) (dates ! j) (lps ! j) j (the (classify_date (dates ! j))))]
      else [])"
  by (auto simp: match_body_def Let_def split: option.splits)

lemma body_flight_numbers:
  "flight_numbers (match_body e b sites dates lps p i m j st) = flight_numbers st @
     (if partial_ratio e p m = 100 \<and> classify_date (dates ! j) \<noteq> None
      then [b + int j] else [])"
  by (auto simp: match_body_def Let_def split: option.splits)

lemma concat_map_if: "concat (map (\<lambda>x. if P x then [h x] else []) xs) = map h (filter P xs)"
  by (induction xs) simp_all

lemma loop_promises:
  "promises (match_loop e b payloads sites dates mps lps st) = promises st @
     map (update_of e b payloads sites dates lps)
       (filter (\<lambda>ij. scored e payloads mps ij \<and> dated dates ij)
          (loop_pairs (length payloads) (length mps)))"
proof -
  have inner: "\<And>p i st. promises (for_each (\<lambda>m j. match_body e b sites dates lps p i m j) mps st)
      = promises st @ concat (map (\<lambda>(j, m). 
     (if partial_ratio e p m = 100 \<and> classify_date (dates ! j) \<noteq> None
      then [(p, calculated e b (sites ! i) (dates ! j) (lps ! j) j (the (classify_date (dates ! j))))]
      else [])) (enumerate 0 mps))"
    by (rule for_each_append) (rule body_promises)
  have "promises (match_loop e b payloads sites dates mps lps st) = promises st @
     concat (map (\<lambda>(i, p). concat (map (\<lambda>(j, m). 
     (if partial_ratio e p m = 100 \<and> classify_date (dates ! j) \<noteq> None
      then [(p, calculated e b (sites ! i) (dates ! j) (lps ! j) j (the (classify_date (dates ! j))))]
      else [])) (enumerate 0 mps))) (enumerate 0 payloads))"
    unfolding match_loop_def by (rule for_each_append) (rule inner)
  also have "concat (map (\<lambda>(i, p). concat (map (\<lambda>(j, m). 
     (if partial_ratio e p m = 100 \<and> classify_date (dates ! j) \<noteq> None
      then [(p, calculated e b (sites ! i) (dates ! j) (lps ! j) j (the (classify_date (dates ! j))))]
      else [])) (enumerate 0 mps))) (enumerate 0 payloads))
    = map (update_of e b payloads sites dates lps)
       (filter (\<lambda>ij. scored e payloads mps ij \<and> dated dates ij)
          (loop_pairs (length payloads) (length mps)))"
    by (simp add: enumerate_nth loop_pairs_def map_concat filter_concat comp_def
        concat_map_if [symmetric] scored_def dated_def update_of_def cong: map_cong if_cong)
  finally show ?thesis .
qed

lemma loop_flight_numbers:
  "flight_numbers (match_loop e b payloads sites dates mps lps st) = flight_numbers st @
     map (\<lambda>ij. b + int (snd ij))
       (filter (\<lambda>ij. scored e payloads mps ij \<and> dated dates ij)
          (loop_pairs (length payloads) (length mps)))"
proof -
  have inner: "\<And>p i st. flight_numbers (for_each (\<lambda>m j. match_body e b sites dates lps p i m j) mps st)
      = flight_numbers st @ concat (map (\<lambda>(j, m). 
     (if partial_ratio e p m = 100 \<and> classify_date (dates ! j) \<noteq> None
      then [b + int j]
      else [])) (enumerate 0 mps))"
    by (rule for_each_append) (rule body_flight_numbers)
  have "flight_numbers (match_loop e b payloads sites dates mps lps st) = flight_numbers st @
     concat (map (\<lambda>(i, p). concat (map (\<lambda>(j, m). 
     (if partial_ratio e p m = 100 \<and> classify_date (dates ! j) \<noteq> None
      then [b + int j]
      else [])) (enumerate 0 mps))) (enumerate 0 payloads))"
    unfolding match_loop_def by (rule for_each_append) (rule inner)
  also have "concat (map (\<lambda>(i, p). concat (map (\<lambda>(j, m). 
     (if partial_ratio e p m = 100 \<and> classify_date (dates ! j) \<noteq> None
      then [b + int j]
      else [])) (enumerate 0 mps))) (enumerate 0 payloads))
    = map (\<lambda>ij. b + int (snd ij))
       (filter (\<lambda>ij. scored e payloads mps ij \<and> dated dates ij)
          (loop_pairs (length payloads) (length mps)))"
    by (simp add: enumerate_nth loop_pairs_def map_concat filter_concat comp_def
        concat_map_if [symmetric] scored_def dated_def cong: map_cong if_cong)
  finally show ?thesis .
qed

section \<open>The columns of the manifest\<close>

lemma pick8_snoc:
  "pick8 k (row @ [x]) = pick8 k row @ (if (length row + k) mod 8 = 0 then [x] else [])"
  by (simp add: pick8_def enumerate_append_eq)

lemma div8_step: "(Suc n + c) div 8 = (n + c) div 8 + (if Suc (n + c) mod 8 = 0 then 1 else 0)"
  by (simp add: div_Suc)

lemma mod8_shift: "Suc (n + 7) mod 8 = n mod 8" "Suc (n + 2) = n + 3" "Suc (n + 5) = n + 6"
  by (simp_all add: mod_Suc) 

lemma length_dates: "length (pick8 0 row) = (length row + 7) div 8"
proof (induction row rule: rev_induct)
  case Nil
  show ?case by (simp add: pick8_def)
next
  case (snoc x row)
  have "length (pick8 0 (row @ [x])) = (length row + 7) div 8 + (if length row mod 8 = 0 then 1 else 0)"
    using snoc by (simp add: pick8_snoc)
  also have "\<dots> = (Suc (length row) + 7) div 8"
    unfolding div8_step [of "length row" 7] mod8_shift ..
  finally show ?case by simp
qed

lemma length_payloads: "length (pick8 3 row) = (length row + 2) div 8"
proof (induction row rule: rev_induct)
  case Nil
  show ?case by (simp add: pick8_def)
next
  case (snoc x row)
  have "length (pick8 3 (row @ [x])) = (length row + 2) div 8 + (if (length row + 3) mod 8 = 0 then 1 else 0)"
    using snoc by (simp add: pick8_snoc)
  also have "\<dots> = (Suc (length row) + 2) div 8"
    unfolding div8_step [of "length row" 2] mod8_shift ..
  finally show ?case by simp
qed

lemma length_launchpads: "length (pick8 6 row) = (length row + 5) div 8"
proof (induction row rule: rev_induct)
  case Nil
  show ?case by (simp add: pick8_def)
next
  case (snoc x row)
  have "length (pick8 6 (row @ [x])) = (length row + 5) div 8 + (if (length row + 6) mod 8 = 0 then 1 else 0)"
    using snoc by (simp add: pick8_snoc)
  also have "\<dots> = (Suc (length row) + 5) div 8"
    unfolding div8_step [of "length row" 5] mod8_shift ..
  finally show ?case by simp
qed

lemma payloads_le_launchpads:
  "length (manifest_payloads row) \<le> length (manifest_launchpads row)"
  by (simp add: manifest_payloads_def manifest_launchpads_def length_payloads length_launchpads
      div_le_mono)

lemma launchpads_le_dates:
  "length (manifest_launchpads row) \<le> length (manifest_dates row)"
  by (simp add: manifest_dates_def manifest_launchpads_def length_dates length_launchpads
      div_le_mono)

section \<open>What the patterns accept\<close>

lemma in_rx_class: "t \<in> set (rx_class c s) \<longleftrightarrow> (\<exists>x. s = x # t \<and> c x)"
  by (auto simp: rx_class_def split: list.splits)

lemma in_rx_then: "t \<in> set (rx_then a b s) \<longleftrightarrow> (\<exists>u\<in>set (a s). t \<in> set (b u))"
  by (auto simp: rx_then_def)

lemma in_rx_or: "t \<in> set (rx_or a b s) \<longleftrightarrow> t \<in> set (a s) \<or> t \<in> set (b s)"
  by (simp add: rx_or_def)

lemma in_rx_eps: "t \<in> set (rx_eps s) \<longleftrightarrow> t = s"
  by (auto simp: rx_eps_def)

lemma in_rx_rep_class:
  "t \<in> set (rx_rep m n (rx_class c) s) \<longleftrightarrow>
     (\<exists>p. s = p @ t \<and> m \<le> length p \<and> length p \<le> n \<and> (\<forall>x\<in>set p. c x))"
proof (induction n arbitrary: m s)
  case 0
  show ?case by auto
next
  case (Suc n)
  show ?case (is "?L \<longleftrightarrow> ?R")
  proof
    assume ?L
    then consider (more) x u where "s = x # u" "c x" "t \<in> set (rx_rep (m - 1) n (rx_class c) u)"
      | (stop) "m = 0" "t = s"
      by (auto simp: in_rx_class split: if_splits)
    then show ?R
    proof cases
      case more
      from more(3) obtain p where "u = p @ t" "m - 1 \<le> length p" "length p \<le> n" "\<forall>x\<in>set p. c x"
        unfolding Suc.IH by blast
      with more(1,2) have "s = (x # p) @ t \<and> m \<le> length (x # p) \<and> length (x # p) \<le> Suc n
          \<and> (\<forall>y\<in>set (x # p). c y)"
        by auto
      then show ?thesis by blast
    next
      case stop
      then show ?thesis by auto
    qed
  next
    assume ?R
    then obtain p where p: "s = p @ t" "m \<le> length p" "length p \<le> Suc n" "\<forall>x\<in>set p. c x"
      by blast
    show ?L
    proof (cases p)
      case Nil
      with p show ?thesis by simp
    next
      case (Cons x q)
      with p have "t \<in> set (rx_rep (m - 1) n (rx_class c) (q @ t))"
        unfolding Suc.IH by auto
      with Cons p show ?thesis by (auto simp: in_rx_class)
    qed
  qed
qed

lemma digit_not_space: "is_digit c \<Longrightarrow> \<not> is_space c"
  by (auto simp: is_digit_def is_space_def)

lemma alpha_not_space: "is_alpha c \<Longrightarrow> \<not> is_space c"
  by (auto simp: is_alpha_def is_space_def)

lemma digit_not_alpha: "is_digit c \<Longrightarrow> \<not> is_alpha c"
  by (auto simp: is_digit_def is_alpha_def)

lemma toks_nonempty: "toks s \<noteq> []"
  by (induction s) (auto split: list.splits)

lemma toks_word: "list_all (\<lambda>c. \<not> is_space c) u \<Longrightarrow> toks u = [u]"
  by (induction u) auto

lemma toks_app:
  "list_all (\<lambda>c. \<not> is_space c) u \<Longrightarrow> is_space w \<Longrightarrow> toks (u @ w # v) = u # toks v"
  by (induction u) auto

lemma toks_space: "is_space w \<Longrightarrow> toks (w # v) = [] # toks v"
  by simp

lemma toks_letter: "\<not> is_space c \<Longrightarrow> toks (c # cs) = (c # hd (toks cs)) # tl (toks cs)"
  using toks_nonempty [of cs] by (cases "toks cs") simp_all

lemma in_rx_rep_class_all:
  "t \<in> set (rx_rep m n (rx_class c) s) \<longleftrightarrow>
     (\<exists>p. s = p @ t \<and> m \<le> length p \<and> length p \<le> n \<and> list_all c p)"
  by (simp add: in_rx_rep_class list_all_iff)

lemma digits_spaceless: "list_all is_digit p \<Longrightarrow> list_all (\<lambda>c. \<not> is_space c) p"
  by (induction p) (simp_all add: digit_not_space)

lemma alphas_spaceless: "list_all is_alpha p \<Longrightarrow> list_all (\<lambda>c. \<not> is_space c) p"
  by (induction p) (simp_all add: alpha_not_space)

lemma digits_alphaless: "list_all is_digit p \<Longrightarrow> list_all (\<lambda>c. \<not> is_alpha c) p"
  by (induction p) (simp_all add: digit_not_alpha)

lemma includes2_toks:
  "js_includes s [a, b] \<Longrightarrow> \<not> is_space a \<Longrightarrow> \<not> is_space b \<Longrightarrow>
     \<exists>tok\<in>set (toks s). a \<in> set tok \<and> b \<in> set tok"
proof (induction s)
  case Nil
  then show ?case by simp
next
  case (Cons c cs)
  show ?case
  proof (cases "starts_with (c # cs) [a, b]")
    case True
    then obtain r where r: "c = a" "cs = b # r"
      by (cases cs) auto
    obtain t ts where "toks r = t # ts"
      using toks_nonempty [of r] by (cases "toks r") auto
    with r Cons.prems show ?thesis by auto
  next
    case False
    with Cons.prems(1) have "js_includes cs [a, b]"
      by (metis js_includes.simps(2))
    from Cons.IH [OF this Cons.prems(2,3)]
    obtain tok where tok: "tok \<in> set (toks cs)" "a \<in> set tok" "b \<in> set tok" by blast
    obtain t ts where tt: "toks cs = t # ts"
      using toks_nonempty [of cs] by (cases "toks cs") auto
    show ?thesis
    proof (cases "is_space c")
      case True
      with tok show ?thesis by auto
    next
      case False
      with tok tt show ?thesis by auto
    qed
  qed
qed

lemma includes1: "js_includes s [a] \<longleftrightarrow> a \<in> set s"
  by (induction s) auto

lemma in_toks_set: "tok \<in> set (toks s) \<Longrightarrow> set tok \<subseteq> set s"
proof (induction s arbitrary: tok)
  case Nil
  then show ?case by simp
next
  case (Cons c cs)
  obtain t ts where tt: "toks cs = t # ts"
    using toks_nonempty [of cs] by (cases "toks cs") auto
  have t: "set t \<subseteq> set cs" and ts: "\<And>u. u \<in> set ts \<Longrightarrow> set u \<subseteq> set cs"
    using Cons.IH tt by simp_all
  show ?case
  proof (cases "is_space c")
    case True
    with Cons.prems tt t ts show ?thesis by auto
  next
    case False
    with Cons.prems tt have "tok = c # t \<or> tok \<in> set ts" by simp
    with t ts show ?thesis by auto
  qed
qed

lemmas rx_in = in_rx_class in_rx_then in_rx_or in_rx_eps in_rx_rep_class_all
lemmas rx_defs = rx_test_def rx_seq_def rx_digits_def rx_ws_def rx_month_word_def rx_clock_def
  rx_chr_def rx_word_i_def rx_chr_i_def rx_vague_def
lemmas tok_simps = toks_app toks_word toks_space toks_letter digits_spaceless alphas_spaceless digits_alphaless

lemma to_upper_alpha: "is_alpha (to_upper c) \<Longrightarrow> is_alpha c"
proof (cases "map_of (zip ''abcdefghijklmnopqrstuvwxyz'' ''ABCDEFGHIJKLMNOPQRSTUVWXYZ'') c")
  case None
  assume "is_alpha (to_upper c)"
  with None show ?thesis by (simp add: to_upper_def)
next
  case (Some u)
  then have "c \<in> set ''abcdefghijklmnopqrstuvwxyz''"
    by (meson map_of_SomeD set_zip_leftD)
  then show ?thesis unfolding is_alpha_def by auto
qed

lemma is_alpha_upper: "is_alpha x \<Longrightarrow> is_alpha (to_upper x)"
proof (cases "map_of (zip ''abcdefghijklmnopqrstuvwxyz'' ''ABCDEFGHIJKLMNOPQRSTUVWXYZ'') x")
  case None
  assume "is_alpha x"
  with None show ?thesis by (simp add: to_upper_def)
next
  case (Some u)
  then have "u \<in> set ''ABCDEFGHIJKLMNOPQRSTUVWXYZ''"
    by (meson map_of_SomeD set_zip_rightD)
  then have "is_alpha u" unfolding is_alpha_def by auto
  with Some show ?thesis by (simp add: to_upper_def)
qed

lemma chr_i_class: "is_alpha x \<Longrightarrow> to_upper c = to_upper x \<Longrightarrow> is_alpha c"
  by (metis is_alpha_upper to_upper_alpha)

lemma word_letters:
  "to_upper c = to_upper CHR ''T'' \<Longrightarrow> is_alpha c"
  "to_upper c = to_upper CHR ''B'' \<Longrightarrow> is_alpha c"
  "to_upper c = to_upper CHR ''D'' \<Longrightarrow> is_alpha c"
  "to_upper c = to_upper CHR ''e'' \<Longrightarrow> is_alpha c"
  "to_upper c = to_upper CHR ''a'' \<Longrightarrow> is_alpha c"
  "to_upper c = to_upper CHR ''r'' \<Longrightarrow> is_alpha c"
  "to_upper c = to_upper CHR ''l'' \<Longrightarrow> is_alpha c"
  "to_upper c = to_upper CHR ''y'' \<Longrightarrow> is_alpha c"
  "to_upper c = to_upper CHR ''m'' \<Longrightarrow> is_alpha c"
  "to_upper c = to_upper CHR ''i'' \<Longrightarrow> is_alpha c"
  "to_upper c = to_upper CHR ''d'' \<Longrightarrow> is_alpha c"
  "to_upper c = to_upper CHR ''t'' \<Longrightarrow> is_alpha c"
  by (erule chr_i_class [rotated], simp add: is_alpha_def)+

lemma clock_chars:
  "\<not> is_alpha CHR ''['' \<and> \<not> is_alpha CHR '']'' \<and> \<not> is_alpha CHR '':''
   \<and> \<not> is_space CHR ''['' \<and> \<not> is_space CHR '']'' \<and> \<not> is_space CHR '':''"
  by (simp add: is_alpha_def is_space_def)

lemma year_shape:
  "year s \<Longrightarrow> \<exists>y. toks s = [y]"
  unfolding year_def rx_defs by (auto simp: rx_in tok_simps simp del: toks.simps)

lemma year_tbd_shape:
  "year_tbd s \<Longrightarrow> \<exists>y t. toks s = [y, t]"
  unfolding year_tbd_def rx_defs
  by (auto simp: rx_in tok_simps word_letters alpha_not_space simp del: toks.simps)

lemma month_shape:
  "month s \<Longrightarrow> \<exists>y m. toks s = [y, m]"
  unfolding month_def rx_defs
  by (auto simp: rx_in tok_simps simp del: toks.simps)

lemma month_tbd_shape:
  "month_tbd s \<Longrightarrow> \<exists>y m t. toks s = [y, m, t] \<and> list_all is_alpha t \<and> t \<noteq> []"
  unfolding month_tbd_def rx_defs
  by (auto simp: rx_in tok_simps word_letters alpha_not_space simp del: toks.simps)

lemma month_vague_shape:
  "month_vague s \<Longrightarrow> \<exists>y v m. toks s = [y, v, m] \<and> list_all is_alpha m \<and> m \<noteq> []"
  unfolding month_vague_def rx_defs
  by (auto simp: rx_in tok_simps word_letters alpha_not_space simp del: toks.simps)

lemma day_shape:
  "day s \<Longrightarrow> \<exists>y m d. toks s = [y, m, d] \<and> list_all is_digit y
     \<and> list_all is_alpha m \<and> list_all is_digit d \<and> d \<noteq> []"
  unfolding day_def rx_defs
  by (auto simp: rx_in tok_simps simp del: toks.simps)

lemma hour_shape:
  "hour s \<Longrightarrow> \<exists>y m d t. toks s = [y, m, d, t] \<and> list_all is_digit y
     \<and> list_all is_alpha m \<and> list_all is_digit d \<and> list_all (\<lambda>c. \<not> is_alpha c) t"
  unfolding hour_def rx_defs
  by (auto simp: rx_in tok_simps clock_chars simp del: toks.simps)

lemma starts_with_hd: "starts_with s (a # p) \<Longrightarrow> a \<in> set s"
  by (cases s) auto

lemma includes_hd: "js_includes s (a # p) \<Longrightarrow> a \<in> set s"
  by (induction s) (auto dest: starts_with_hd simp del: starts_with.simps)

lemma year_chars: "year s \<Longrightarrow> list_all is_digit s"
  unfolding year_def rx_defs by (auto simp: rx_in)

lemma upper_vals:
  "to_upper CHR ''Q'' = CHR ''Q''" "to_upper CHR ''H'' = CHR ''H''"
  "to_upper CHR ''T'' = CHR ''T''" "to_upper CHR ''B'' = CHR ''B''"
  "to_upper CHR ''D'' = CHR ''D''"
  by (simp_all add: to_upper_def)

lemma QH_class:
  "\<not> is_digit CHR ''Q''" "\<not> is_space CHR ''Q''"
  "\<not> is_digit CHR ''H''" "\<not> is_space CHR ''H''"
  "is_alpha CHR ''H''" "is_digit CHR ''1''" "is_digit CHR ''2''"
  by (simp_all add: is_digit_def is_space_def is_alpha_def)

lemma year_tbd_chars:
  "year_tbd s \<Longrightarrow>
     list_all (\<lambda>c. is_digit c \<or> is_space c \<or> to_upper c \<in> {CHR ''T'', CHR ''B'', CHR ''D''}) s"
  unfolding year_tbd_def rx_defs
  by (auto simp: rx_in list_all_iff upper_vals)

lemma year_no_QH:
  assumes "year s"
  shows "\<not> js_includes s ''Q'' \<and> \<not> js_includes s ''H1'' \<and> \<not> js_includes s ''H2''"
proof -
  have "CHR ''Q'' \<notin> set s" "CHR ''H'' \<notin> set s"
    using year_chars [OF assms] QH_class by (auto simp: list_all_iff)
  then show ?thesis by (blast dest: includes_hd)
qed

lemma year_tbd_no_QH:
  assumes "year_tbd s"
  shows "\<not> js_includes s ''Q'' \<and> \<not> js_includes s ''H1'' \<and> \<not> js_includes s ''H2''"
proof -
  have "CHR ''Q'' \<notin> set s" "CHR ''H'' \<notin> set s"
    using year_tbd_chars [OF assms] QH_class upper_vals by (auto simp: list_all_iff)
  then show ?thesis by (blast dest: includes_hd)
qed

lemma no_H_digit:
  assumes "\<forall>tok\<in>set (toks s). list_all is_digit tok \<or> list_all is_alpha tok
              \<or> list_all (\<lambda>c. \<not> is_alpha c) tok"
  shows "\<not> js_includes s ''H1'' \<and> \<not> js_includes s ''H2''"
proof -
  have "\<not> js_includes s [CHR ''H'', d]" if d: "is_digit d" for d
  proof
    assume "js_includes s [CHR ''H'', d]"
    then obtain tok where tok: "tok \<in> set (toks s)" "CHR ''H'' \<in> set tok" "d \<in> set tok"
      using includes2_toks [of s "CHR ''H''" d] d QH_class digit_not_space by blast
    with assms have "list_all is_digit tok \<or> list_all is_alpha tok
              \<or> list_all (\<lambda>c. \<not> is_alpha c) tok" by blast
    with tok d show False
      using QH_class digit_not_alpha by (auto simp: list_all_iff)
  qed
  then show ?thesis using QH_class by simp
qed

lemma hour_first:
  assumes "hour s"
  shows "\<not> js_includes s ''H1'' \<and> \<not> js_includes s ''H2'' \<and> \<not> year_tbd s \<and> \<not> year s
     \<and> \<not> month_tbd s \<and> \<not> month_vague s \<and> \<not> month s \<and> \<not> day s"
proof -
  from hour_shape [OF assms] obtain y m d t where
    sh: "toks s = [y, m, d, t]" "list_all is_digit y" "list_all is_alpha m" "list_all is_digit d"
      "list_all (\<lambda>c. \<not> is_alpha c) t"
    by blast
  then have "\<not> js_includes s ''H1'' \<and> \<not> js_includes s ''H2''"
    by (intro no_H_digit) auto
  moreover have "\<not> year_tbd s" using year_tbd_shape [of s] sh(1) by auto
  moreover have "\<not> year s" using year_shape [of s] sh(1) by auto
  moreover have "\<not> month_tbd s" using month_tbd_shape [of s] sh(1) by auto
  moreover have "\<not> month_vague s" using month_vague_shape [of s] sh(1) by auto
  moreover have "\<not> month s" using month_shape [of s] sh(1) by auto
  moreover have "\<not> day s" using day_shape [of s] sh(1) by auto
  ultimately show ?thesis by blast
qed

lemma digit_alpha_word: "list_all is_digit d \<Longrightarrow> list_all is_alpha d \<Longrightarrow> d = []"
  by (cases d) (auto dest: digit_not_alpha)

lemma day_first:
  assumes "day s"
  shows "\<not> js_includes s ''H1'' \<and> \<not> js_includes s ''H2'' \<and> \<not> year_tbd s \<and> \<not> year s
     \<and> \<not> month_tbd s \<and> \<not> month_vague s \<and> \<not> month s"
proof -
  from day_shape [OF assms] obtain y m d where
    sh: "toks s = [y, m, d]" "list_all is_digit y" "list_all is_alpha m" "list_all is_digit d"
      "d \<noteq> []"
    by blast
  then have "\<not> js_includes s ''H1'' \<and> \<not> js_includes s ''H2''"
    by (intro no_H_digit) auto
  moreover have "\<not> year_tbd s" using year_tbd_shape [of s] sh(1) by auto
  moreover have "\<not> year s" using year_shape [of s] sh(1) by auto
  moreover have "\<not> month_tbd s"
    using month_tbd_shape [of s] sh digit_alpha_word [of d] by auto
  moreover have "\<not> month_vague s"
    using month_vague_shape [of s] sh digit_alpha_word [of d] by auto
  moreover have "\<not> month s" using month_shape [of s] sh(1) by auto
  ultimately show ?thesis by blast
qed

section \<open>One round of the loop, and the run\<close>

lemma body_matched:
  assumes "partial_ratio e p m = 100" "classify_date (dates ! j) = Some c"
  shows "promises (match_body e b sites dates lps p i m j st)
           = promises st @ [(p, calculated e b (sites ! i) (dates ! j) (lps ! j) j c)]"
    and "flight_numbers (match_body e b sites dates lps p i m j st)
           = flight_numbers st @ [b + int j]"
  using assms by (simp_all add: match_body_def Let_def)

lemma in_loop_pairs: "(i, j) \<in> set (loop_pairs n m) \<longleftrightarrow> i < n \<and> j < m"
  by (force simp: loop_pairs_def)

lemma finish_calls: "update_calls (finish e payloads st) = promises st"
  by (simp add: finish_def split: option.splits)

lemma run_calls:
  "update_calls (run e col manifest) =
     (case base_flight_number (find_past col) of
        None \<Rightarrow> []
      | Some b \<Rightarrow>
          map (update_of e b (map payload_id (find_upcoming col))
                 (map launch_site_id (find_upcoming col))
                 (manifest_dates (manifest_row manifest))
                 (manifest_launchpads (manifest_row manifest)))
            (filter (\<lambda>ij. scored e (map payload_id (find_upcoming col))
                              (manifest_payloads (manifest_row manifest)) ij
                          \<and> dated (manifest_dates (manifest_row manifest)) ij)
               (loop_pairs (length (find_upcoming col))
                  (length (manifest_payloads (manifest_row manifest))))))"
  by (simp add: run_def Let_def finish_calls loop_promises init_state_def
      split: option.splits)

lemma set_find_upcoming: "set (find_upcoming col) = {l \<in> set col. launch_upcoming l}"
  by (auto simp: find_upcoming_def)

lemma resolve_unknown:
  "resolve_site launchpad = (None, None, None) \<longleftrightarrow> launchpad \<notin> set known_launchpads"
  by (simp add: resolve_site_def known_launchpads_def)

lemma calculated_site:
  "(site_id ct, site_name ct, site_name_long ct) = resolve_site launchpad"
  if "ct = calculated e b location date launchpad j c"
  using that by (simp add: calculated_def Let_def split: prod.splits)

section \<open>Sites\<close>

text \<open>
  Claim C7. Launchpad resolution is a lookup by string equality: the label
  \<^verbatim>\<open>SLC-40 / LC-39A\<close> resolves to the site \<^verbatim>\<open>ccafs_slc_40\<close>; a label gives three \<^verbatim>\<open>null\<close>
  site fields exactly when it is none of the ten labels of the code; nothing is raised,
  and a matched row with such a label and a date that classifies still submits one
  update, with its flight number and with the three site fields \<^verbatim>\<open>null\<close>.
\<close>

theorem launchpad_lookup:
  "resolve_site ''SLC-40 / LC-39A''
     = (Some ''ccafs_slc_40'', Some ''CCAFS SLC 40'',
        Some ''Cape Canaveral Air Force Station Space Launch Complex 40'')
   \<and> (resolve_site launchpad = (None, None, None) \<longleftrightarrow> launchpad \<notin> set known_launchpads)
   \<and> (launchpads ! j \<notin> set known_launchpads \<and> partial_ratio e p m = 100
        \<and> classify_date (dates ! j) = Some c \<longrightarrow>
      (\<exists>ct. promises (match_body e b sites dates launchpads p i m j st) = promises st @ [(p, ct)]
          \<and> flight_number ct = b + int j
          \<and> site_id ct = None \<and> site_name ct = None \<and> site_name_long ct = None))"
proof (intro conjI impI)
  show "resolve_site ''SLC-40 / LC-39A''
     = (Some ''ccafs_slc_40'', Some ''CCAFS SLC 40'',
        Some ''Cape Canaveral Air Force Station Space Launch Complex 40'')"
    by (simp add: resolve_site_def)
  show "resolve_site launchpad = (None, None, None) \<longleftrightarrow> launchpad \<notin> set known_launchpads"
    by (rule resolve_unknown)
next
  assume a: "launchpads ! j \<notin> set known_launchpads \<and> partial_ratio e p m = 100
        \<and> classify_date (dates ! j) = Some c"
  define ct where "ct = calculated e b (sites ! i) (dates ! j) (launchpads ! j) j c"
  have "promises (match_body e b sites dates launchpads p i m j st) = promises st @ [(p, ct)]"
    using a body_matched(1) [of e p m dates j c] by (simp add: ct_def)
  moreover have "flight_number ct = b + int j"
    by (simp add: ct_def calculated_def Let_def split: prod.splits)
  moreover have "(site_id ct, site_name ct, site_name_long ct) = (None, None, None)"
    using calculated_site [OF ct_def] a resolve_unknown by simp
  ultimately show "\<exists>ct. promises (match_body e b sites dates launchpads p i m j st)
          = promises st @ [(p, ct)]
          \<and> flight_number ct = b + int j
          \<and> site_id ct = None \<and> site_name ct = None \<and> site_name_long ct = None"
    by auto
qed

theorem launchpad_lookup_witness:
  "''unknown-pad'' \<notin> set known_launchpads
   \<and> partial_ratio sample_ext ''Starlink-5'' ''Starlink-5 Mission'' = 100
   \<and> classify_date ''2020 Nov 4'' = Some \<lparr>precision = ''day'', tbd = False, is_tentative = True\<rparr>
   \<and> (\<exists>ct. promises (match_body sample_ext 88 [Some ''ccafs_slc_40''] [''2020 Nov 4'']
                [''unknown-pad''] ''Starlink-5'' 0 ''Starlink-5 Mission'' 0 init_state)
              = [(''Starlink-5'', ct)]
          \<and> flight_number ct = 88
          \<and> site_id ct = None \<and> site_name ct = None \<and> site_name_long ct = None)"
proof -
  have h1: "[''unknown-pad''] ! 0 \<notin> set known_launchpads"
    by (simp add: known_launchpads_def)
  have h2: "partial_ratio sample_ext ''Starlink-5'' ''Starlink-5 Mission'' = 100"
    by code_simp
  have h3: "classify_date ([''2020 Nov 4''] ! 0)
      = Some \<lparr>precision = ''day'', tbd = False, is_tentative = True\<rparr>"
    by code_simp
  from launchpad_lookup [where launchpads = "[''unknown-pad'']" and j = 0 and e = sample_ext
      and p = "''Starlink-5''" and m = "''Starlink-5 Mission''" and dates = "[''2020 Nov 4'']"
      and c = "\<lparr>precision = ''day'', tbd = False, is_tentative = True\<rparr>"
      and b = 88 and sites = "[Some ''ccafs_slc_40'']" and i = 0 and st = init_state]
    h1 h2 h3
  show ?thesis by (simp add: init_state_def)
qed

section \<open>More on one round of the loop\<close>

lemma body_unmatched:
  "partial_ratio e p m \<noteq> 100 \<Longrightarrow> match_body e b sites dates lps p i m j st = st"
  by (simp add: match_body_def)


lemma body_console_grows:
  "partial_ratio e p m = 100 \<Longrightarrow>
     length (console (match_body e b sites dates lps p i m j st)) > length (console st)"
  by (simp add: match_body_def Let_def split: option.splits)

lemma calculated_local:
  "launch_date_local (calculated e b location date launchpad j c)
     = moment_local e (time_zone location) (parsed_date date)"
  by (simp add: calculated_def Let_def split: prod.splits)

lemma calculated_number:
  "flight_number (calculated e b location date launchpad j c) = b + int j"
  by (simp add: calculated_def Let_def split: prod.splits)

lemma in_loop_promises:
  "(q, ct) \<in> set (promises (match_loop e b payloads sites dates mps lps init_state)) \<longleftrightarrow>
     (\<exists>i j. i < length payloads \<and> j < length mps
        \<and> partial_ratio e (payloads ! i) (mps ! j) = 100
        \<and> classify_date (dates ! j) \<noteq> None
        \<and> (q, ct) = update_of e b payloads sites dates lps (i, j))"
  by (auto simp: loop_promises init_state_def in_loop_pairs scored_def dated_def image_iff)

section \<open>Time zones\<close>

text \<open>
  Claim C6. The time zone of the local time comes from the site identifier the internal
  record already has, \<^verbatim>\<open>sites[payload_index]\<close>, and not from the launchpad label of the
  manifest row: the three identifiers of the east coast give \<^verbatim>\<open>America/New_York\<close>, the two
  of Vandenberg give \<^verbatim>\<open>America/Los_Angeles\<close>, and every other value, \<^verbatim>\<open>null\<close> included,
  gives \<^verbatim>\<open>America/Chicago\<close>. Every update of a run carries the local time in the zone of
  the site of an upcoming record with its payload identifier.
\<close>

theorem local_time_zone:
  "time_zone (Some ''ccafs_slc_40'') = ''America/New_York''
   \<and> time_zone (Some ''ksc_lc_39a'') = ''America/New_York''
   \<and> time_zone (Some ''ccafs_lc_13'') = ''America/New_York''
   \<and> time_zone (Some ''vafb_slc_4e'') = ''America/Los_Angeles''
   \<and> time_zone (Some ''vafb_slc_4w'') = ''America/Los_Angeles''
   \<and> time_zone None = ''America/Chicago''
   \<and> (location \<notin> {Some ''ccafs_slc_40'', Some ''ksc_lc_39a'', Some ''ccafs_lc_13'',
                      Some ''vafb_slc_4e'', Some ''vafb_slc_4w''}
        \<longrightarrow> time_zone location = ''America/Chicago'')
   \<and> (partial_ratio e p m = 100 \<and> classify_date (dates ! j) = Some c \<longrightarrow>
        (\<exists>ct. promises (match_body e b sites dates launchpads p i m j st)
                 = promises st @ [(p, ct)]
             \<and> launch_date_local ct
                 = moment_local e (time_zone (sites ! i)) (parsed_date (dates ! j))))
   \<and> ((q, ct') \<in> set (update_calls (run e col manifest)) \<longrightarrow>
        (\<exists>l\<in>set col. launch_upcoming l \<and> payload_id l = q
           \<and> (\<exists>date. launch_date_local ct'
                 = moment_local e (time_zone (launch_site_id l)) (parsed_date date))))"
proof -
  have zones: "time_zone (Some ''ccafs_slc_40'') = ''America/New_York''
   \<and> time_zone (Some ''ksc_lc_39a'') = ''America/New_York''
   \<and> time_zone (Some ''ccafs_lc_13'') = ''America/New_York''
   \<and> time_zone (Some ''vafb_slc_4e'') = ''America/Los_Angeles''
   \<and> time_zone (Some ''vafb_slc_4w'') = ''America/Los_Angeles''
   \<and> time_zone None = ''America/Chicago''"
    by (simp add: time_zone_def)
  have other: "location \<notin> {Some ''ccafs_slc_40'', Some ''ksc_lc_39a'', Some ''ccafs_lc_13'',
                      Some ''vafb_slc_4e'', Some ''vafb_slc_4w''}
        \<longrightarrow> time_zone location = ''America/Chicago''"
    by (simp add: time_zone_def)
  have body: "partial_ratio e p m = 100 \<and> classify_date (dates ! j) = Some c \<longrightarrow>
        (\<exists>ct. promises (match_body e b sites dates launchpads p i m j st)
                 = promises st @ [(p, ct)]
             \<and> launch_date_local ct
                 = moment_local e (time_zone (sites ! i)) (parsed_date (dates ! j)))"
    using body_matched(1) [of e p m dates j c] calculated_local by blast
  have whole: "(q, ct') \<in> set (update_calls (run e col manifest)) \<longrightarrow>
        (\<exists>l\<in>set col. launch_upcoming l \<and> payload_id l = q
           \<and> (\<exists>date. launch_date_local ct'
                 = moment_local e (time_zone (launch_site_id l)) (parsed_date date)))"
  proof
    assume a: "(q, ct') \<in> set (update_calls (run e col manifest))"
    let ?ls = "find_upcoming col"
    from a obtain b i j where
      ij: "i < length ?ls"
      and u: "(q, ct') = update_of e b (map payload_id ?ls) (map launch_site_id ?ls)
                (manifest_dates (manifest_row manifest))
                (manifest_launchpads (manifest_row manifest)) (i, j)"
      by (auto simp: run_calls in_loop_pairs split: option.splits)
    from ij have l: "?ls ! i \<in> set col" "launch_upcoming (?ls ! i)"
      using set_find_upcoming [of col] nth_mem [OF ij] by auto
    from u ij have "payload_id (?ls ! i) = q"
      and "launch_date_local ct' = moment_local e (time_zone (launch_site_id (?ls ! i)))
             (parsed_date (manifest_dates (manifest_row manifest) ! j))"
      by (simp_all add: update_of_def calculated_local)
    with l show "\<exists>l\<in>set col. launch_upcoming l \<and> payload_id l = q
           \<and> (\<exists>date. launch_date_local ct'
                 = moment_local e (time_zone (launch_site_id l)) (parsed_date date))"
      by blast
  qed
  from zones other body whole show ?thesis by blast
qed

theorem local_time_zone_witness:
  "Some ''stls'' \<notin> {Some ''ccafs_slc_40'', Some ''ksc_lc_39a'', Some ''ccafs_lc_13'',
                      Some ''vafb_slc_4e'', Some ''vafb_slc_4w''}
   \<and> time_zone (Some ''stls'') = ''America/Chicago''
   \<and> partial_ratio sample_ext ''Iridium-9'' ''Iridium-9 NEXT'' = 100
   \<and> classify_date ''2020 Nov 4 [14:10]''
       = Some \<lparr>precision = ''hour'', tbd = False, is_tentative = False\<rparr>
   \<and> (\<exists>ct. promises (match_body sample_ext 88 [Some ''vafb_slc_4e''] [''2020 Nov 4 [14:10]'']
                [''SLC-40''] ''Iridium-9'' 0 ''Iridium-9 NEXT'' 0 init_state)
              = [(''Iridium-9'', ct)]
          \<and> launch_date_local ct = ''America/Los_Angeles'')
   \<and> update_calls (run sample_ext
         [sample_launch 87 False ''Old'' ''ksc_lc_39a'',
          sample_launch 90 True ''Iridium-9'' ''vafb_slc_4e'']
         (table_text [sample_row ''2020 Nov 4 [14:10]'' ''SLC-40'' ''Iridium-9 NEXT'']))
       = [(''Iridium-9'',
           \<lparr>flight_number = 88, launch_year = ''2020'', launch_date_unix = None,
            launch_date_utc = None, launch_date_local = ''America/Los_Angeles'',
            ct_is_tentative = False, tentative_max_precision = ''hour'', ct_tbd = False,
            site_id = Some ''ccafs_slc_40'', site_name = Some ''CCAFS SLC 40'',
            site_name_long
              = Some ''Cape Canaveral Air Force Station Space Launch Complex 40''\<rparr>)]"
proof -
  have h1: "Some ''stls'' \<notin> {Some ''ccafs_slc_40'', Some ''ksc_lc_39a'', Some ''ccafs_lc_13'',
                      Some ''vafb_slc_4e'', Some ''vafb_slc_4w''}"
    by simp
  have h2: "partial_ratio sample_ext ''Iridium-9'' ''Iridium-9 NEXT'' = 100"
    by code_simp
  have h3: "classify_date ([''2020 Nov 4 [14:10]''] ! 0)
       = Some \<lparr>precision = ''hour'', tbd = False, is_tentative = False\<rparr>"
    by code_simp
  have h4: "moment_local sample_ext (time_zone (Some ''vafb_slc_4e'')) s
      = ''America/Los_Angeles''" for s
    by (simp add: sample_ext_def time_zone_def)
  have h5: "update_calls (run sample_ext
         [sample_launch 87 False ''Old'' ''ksc_lc_39a'',
          sample_launch 90 True ''Iridium-9'' ''vafb_slc_4e'']
         (table_text [sample_row ''2020 Nov 4 [14:10]'' ''SLC-40'' ''Iridium-9 NEXT'']))
       = [(''Iridium-9'',
           \<lparr>flight_number = 88, launch_year = ''2020'', launch_date_unix = None,
            launch_date_utc = None, launch_date_local = ''America/Los_Angeles'',
            ct_is_tentative = False, tentative_max_precision = ''hour'', ct_tbd = False,
            site_id = Some ''ccafs_slc_40'', site_name = Some ''CCAFS SLC 40'',
            site_name_long
              = Some ''Cape Canaveral Air Force Station Space Launch Complex 40''\<rparr>)]"
    by code_simp
  note t = local_time_zone [where location = "Some ''stls''" and e = sample_ext
      and p = "''Iridium-9''" and m = "''Iridium-9 NEXT''" and dates = "[''2020 Nov 4 [14:10]'']"
      and j = 0 and c = "\<lparr>precision = ''hour'', tbd = False, is_tentative = False\<rparr>"
      and b = 88 and sites = "[Some ''vafb_slc_4e'']" and launchpads = "[''SLC-40'']"
      and i = 0 and st = init_state and q = "[]" and ct' = undefined and col = "[]"
      and manifest = "[]"]
  from t h1 have chicago: "time_zone (Some ''stls'') = ''America/Chicago''"
    by blast
  from t h2 h3 obtain ct where
    "promises (match_body sample_ext 88 [Some ''vafb_slc_4e''] [''2020 Nov 4 [14:10]'']
                [''SLC-40''] ''Iridium-9'' 0 ''Iridium-9 NEXT'' 0 init_state)
       = promises init_state @ [(''Iridium-9'', ct)]"
    "launch_date_local ct
       = moment_local sample_ext (time_zone ([Some ''vafb_slc_4e''] ! 0))
           (parsed_date ([''2020 Nov 4 [14:10]''] ! 0))"
    by blast
  then have "\<exists>ct. promises (match_body sample_ext 88 [Some ''vafb_slc_4e'']
                [''2020 Nov 4 [14:10]''] [''SLC-40''] ''Iridium-9'' 0 ''Iridium-9 NEXT'' 0
                init_state)
              = [(''Iridium-9'', ct)]
          \<and> launch_date_local ct = ''America/Los_Angeles''"
    by (simp add: init_state_def h4)
  with h1 h2 h3 h5 chicago show ?thesis by simp
qed

section \<open>Dates that match no pattern\<close>





section \<open>Flight numbers\<close>

lemma sorted_last_Max:
  "xs \<noteq> [] \<Longrightarrow> sorted (map f xs) \<Longrightarrow> f (last xs) = Max (f ` set xs)"
proof (induction xs)
  case Nil
  then show ?case by simp
next
  case (Cons x xs)
  show ?case
  proof (cases "xs = []")
    case True
    then show ?thesis by simp
  next
    case False
    with Cons have IH: "f (last xs) = Max (f ` set xs)" by simp
    from Cons.prems have "\<forall>y\<in>set xs. f x \<le> f y" by simp
    with False have "f x \<le> Max (f ` set xs)"
      by (metis List.finite_set Max_ge_iff empty_iff finite_imageI imageI image_is_empty
          last_in_set set_empty)
    with False IH show ?thesis by (simp add: max_absorb2)
  qed
qed

lemma base_is_max:
  assumes "\<exists>l\<in>set col. \<not> launch_upcoming l"
  shows "base_flight_number (find_past col)
     = Some (Max (launch_flight_number ` {l \<in> set col. \<not> launch_upcoming l}) + 1)"
proof -
  let ?past = "sort_key launch_flight_number (filter (\<lambda>l. \<not> launch_upcoming l) col)"
  from assms have ne: "?past \<noteq> []"
    by (metis (mono_tags, lifting) empty_filter_conv set_empty set_sort)
  have "launch_flight_number (last ?past) = Max (launch_flight_number ` set ?past)"
    using ne by (rule sorted_last_Max) simp
  moreover have "set ?past = {l \<in> set col. \<not> launch_upcoming l}" by auto
  moreover have "find_past col = last ?past # rev (butlast ?past)"
    using ne by (metis append_butlast_last_id find_past_def rev.simps(2) rev_rev_ident
        rev_singleton_conv rev_append append_Cons append_Nil)
  ultimately show ?thesis by (simp add: base_flight_number_def)
qed


lemma base_Some:
  assumes "base_flight_number (find_past col) = Some b"
  shows "b = Max (launch_flight_number ` {l \<in> set col. \<not> launch_upcoming l}) + 1"
proof -
  from assms have "find_past col \<noteq> []"
    by (auto simp: base_flight_number_def)
  then have "filter (\<lambda>l. \<not> launch_upcoming l) col \<noteq> []"
    by (auto simp: find_past_def)
  then have "\<exists>l\<in>set col. \<not> launch_upcoming l"
    by (auto simp: filter_empty_conv)
  from base_is_max [OF this] assms show ?thesis by simp
qed

lemma in_run_calls:
  assumes "(q, ct) \<in> set (update_calls (run e col manifest))"
  shows "\<exists>b i j. base_flight_number (find_past col) = Some b
     \<and> i < length (find_upcoming col)
     \<and> j < length (manifest_payloads (manifest_row manifest))
     \<and> partial_ratio e (payload_id (find_upcoming col ! i))
          (manifest_payloads (manifest_row manifest) ! j) = 100
     \<and> classify_date (manifest_dates (manifest_row manifest) ! j) \<noteq> None
     \<and> (q, ct) = update_of e b (map payload_id (find_upcoming col))
          (map launch_site_id (find_upcoming col))
          (manifest_dates (manifest_row manifest))
          (manifest_launchpads (manifest_row manifest)) (i, j)"
proof (cases "base_flight_number (find_past col)")
  case None
  with assms show ?thesis by (simp add: run_calls)
next
  case (Some b)
  with assms obtain ij where
    ij: "ij \<in> set (loop_pairs (length (find_upcoming col))
                  (length (manifest_payloads (manifest_row manifest))))"
      "scored e (map payload_id (find_upcoming col))
         (manifest_payloads (manifest_row manifest)) ij"
      "dated (manifest_dates (manifest_row manifest)) ij"
    and u: "(q, ct) = update_of e b (map payload_id (find_upcoming col))
          (map launch_site_id (find_upcoming col))
          (manifest_dates (manifest_row manifest))
          (manifest_launchpads (manifest_row manifest)) ij"
    by (auto simp: run_calls)
  obtain i j where p: "ij = (i, j)" by (cases ij)
  with ij have "i < length (find_upcoming col)"
    "j < length (manifest_payloads (manifest_row manifest))"
    "partial_ratio e (payload_id (find_upcoming col ! i))
          (manifest_payloads (manifest_row manifest) ! j) = 100"
    "classify_date (manifest_dates (manifest_row manifest) ! j) \<noteq> None"
    by (simp_all add: in_loop_pairs scored_def dated_def)
  with Some u p show ?thesis by blast
qed

text \<open>
  Claim C3. The base ordinal is one more than the greatest flight number of the records
  that are not upcoming, and a match receives the base ordinal plus the position of its
  row in the manifest: in one round of the loop, and for every update of a run. With the
  greatest past flight number 49 and three matches on the rows 0, 1 and 2 the ordinals are
  50, 51 and 52, each for the payload of its row.
\<close>

theorem ordinal_is_base_plus_position:
  "((\<exists>l\<in>set col. \<not> launch_upcoming l) \<longrightarrow>
      base_flight_number (find_past col)
        = Some (Max (launch_flight_number ` {l \<in> set col. \<not> launch_upcoming l}) + 1))
   \<and> (partial_ratio e p m = 100 \<and> classify_date (dates ! j) = Some c \<longrightarrow>
        (\<exists>ct. promises (match_body e b sites dates launchpads p i m j st)
                 = promises st @ [(p, ct)]
             \<and> flight_number ct = b + int j)
        \<and> flight_numbers (match_body e b sites dates launchpads p i m j st)
            = flight_numbers st @ [b + int j])
   \<and> ((q, ct') \<in> set (update_calls (run e col manifest)) \<longrightarrow>
        (\<exists>k<length (manifest_payloads (manifest_row manifest)).
           partial_ratio e q (manifest_payloads (manifest_row manifest) ! k) = 100
           \<and> flight_number ct'
               = Max (launch_flight_number ` {l \<in> set col. \<not> launch_upcoming l}) + 1 + int k))
   \<and> map (\<lambda>u. (fst u, flight_number (snd u)))
        (update_calls (run sample_ext
           [sample_launch 48 False ''Old-1'' ''ksc_lc_39a'',
            sample_launch 49 False ''Old-2'' ''ccafs_slc_40'',
            sample_launch 60 True ''Alpha'' ''ccafs_slc_40'',
            sample_launch 61 True ''Bravo'' ''ksc_lc_39a'',
            sample_launch 62 True ''Charlie'' ''vafb_slc_4e'']
           (table_text
              [sample_row ''2020 Nov 4 [14:10]'' ''SLC-40'' ''Alpha'',
               sample_row ''2020 Dec'' ''LC-39A'' ''Bravo'',
               sample_row ''2021'' ''SLC-4E'' ''Charlie''])))
       = [(''Alpha'', 50), (''Bravo'', 51), (''Charlie'', 52)]"
proof (intro conjI impI)
  show "base_flight_number (find_past col)
        = Some (Max (launch_flight_number ` {l \<in> set col. \<not> launch_upcoming l}) + 1)"
    if "\<exists>l\<in>set col. \<not> launch_upcoming l"
    using that by (rule base_is_max)
next
  assume a: "partial_ratio e p m = 100 \<and> classify_date (dates ! j) = Some c"
  then show "\<exists>ct. promises (match_body e b sites dates launchpads p i m j st)
                 = promises st @ [(p, ct)]
             \<and> flight_number ct = b + int j"
    using body_matched(1) [of e p m dates j c] calculated_number by blast
  from a show "flight_numbers (match_body e b sites dates launchpads p i m j st)
            = flight_numbers st @ [b + int j]"
    using body_matched(2) [of e p m dates j c] by blast
next
  assume a: "(q, ct') \<in> set (update_calls (run e col manifest))"
  let ?mps = "manifest_payloads (manifest_row manifest)"
  from in_run_calls [OF a] obtain b i k where
    b: "base_flight_number (find_past col) = Some b"
    and i: "i < length (find_upcoming col)"
    and k: "k < length ?mps"
    and s: "partial_ratio e (payload_id (find_upcoming col ! i)) (?mps ! k) = 100"
    and u: "(q, ct') = update_of e b (map payload_id (find_upcoming col))
                (map launch_site_id (find_upcoming col))
                (manifest_dates (manifest_row manifest))
                (manifest_launchpads (manifest_row manifest)) (i, k)"
    by blast
  from u i s have "partial_ratio e q (?mps ! k) = 100"
    by (simp add: update_of_def)
  moreover from u have "flight_number ct' = b + int k"
    by (simp add: update_of_def calculated_number)
  ultimately show "\<exists>k<length ?mps. partial_ratio e q (?mps ! k) = 100
           \<and> flight_number ct'
               = Max (launch_flight_number ` {l \<in> set col. \<not> launch_upcoming l}) + 1 + int k"
    using k base_Some [OF b] by auto
next
  show "map (\<lambda>u. (fst u, flight_number (snd u)))
        (update_calls (run sample_ext
           [sample_launch 48 False ''Old-1'' ''ksc_lc_39a'',
            sample_launch 49 False ''Old-2'' ''ccafs_slc_40'',
            sample_launch 60 True ''Alpha'' ''ccafs_slc_40'',
            sample_launch 61 True ''Bravo'' ''ksc_lc_39a'',
            sample_launch 62 True ''Charlie'' ''vafb_slc_4e'']
           (table_text
              [sample_row ''2020 Nov 4 [14:10]'' ''SLC-40'' ''Alpha'',
               sample_row ''2020 Dec'' ''LC-39A'' ''Bravo'',
               sample_row ''2021'' ''SLC-4E'' ''Charlie''])))
       = [(''Alpha'', 50), (''Bravo'', 51), (''Charlie'', 52)]"
    by code_simp
qed

theorem ordinal_is_base_plus_position_witness:
  "(\<exists>l\<in>set [sample_launch 48 False ''Old-1'' ''ksc_lc_39a'',
              sample_launch 49 False ''Old-2'' ''ccafs_slc_40'',
              sample_launch 60 True ''Charlie'' ''vafb_slc_4e'',
              sample_launch 61 True ''Alpha'' ''ccafs_slc_40'']. \<not> launch_upcoming l)
   \<and> Max (launch_flight_number `
        {l \<in> set [sample_launch 48 False ''Old-1'' ''ksc_lc_39a'',
                  sample_launch 49 False ''Old-2'' ''ccafs_slc_40'',
                  sample_launch 60 True ''Charlie'' ''vafb_slc_4e'',
                  sample_launch 61 True ''Alpha'' ''ccafs_slc_40'']. \<not> launch_upcoming l}) + 1
       = 50
   \<and> partial_ratio sample_ext ''Charlie'' ''Charlie'' = 100
   \<and> classify_date ''2021'' = Some \<lparr>precision = ''year'', tbd = True, is_tentative = True\<rparr>
   \<and> flight_numbers (match_body sample_ext 50 [Some ''vafb_slc_4e''] [''2020 Dec'', ''2021'']
        [''SLC-40'', ''SLC-4E''] ''Charlie'' 0 ''Charlie'' 1 init_state) = [51]
   \<and> map (\<lambda>u. (fst u, flight_number (snd u)))
        (update_calls (run sample_ext
           [sample_launch 48 False ''Old-1'' ''ksc_lc_39a'',
            sample_launch 49 False ''Old-2'' ''ccafs_slc_40'',
            sample_launch 60 True ''Charlie'' ''vafb_slc_4e'',
            sample_launch 61 True ''Alpha'' ''ccafs_slc_40'']
           (table_text
              [sample_row ''2020 Dec'' ''SLC-40'' ''Alpha'',
               sample_row ''2021'' ''SLC-4E'' ''Charlie''])))
       = [(''Charlie'', 51), (''Alpha'', 50)]"
proof -
  let ?col = "[sample_launch 48 False ''Old-1'' ''ksc_lc_39a'',
              sample_launch 49 False ''Old-2'' ''ccafs_slc_40'',
              sample_launch 60 True ''Charlie'' ''vafb_slc_4e'',
              sample_launch 61 True ''Alpha'' ''ccafs_slc_40'']"
  let ?dates = "[''2020 Dec'', ''2021'']"
  have h1: "\<exists>l\<in>set ?col. \<not> launch_upcoming l"
    by (simp add: sample_launch_def)
  have h2: "base_flight_number (find_past ?col) = Some 50"
    by code_simp
  have h3: "partial_ratio sample_ext ''Charlie'' ''Charlie'' = 100"
    by code_simp
  have h4: "classify_date (?dates ! 1)
      = Some \<lparr>precision = ''year'', tbd = True, is_tentative = True\<rparr>"
    by code_simp
  have h5: "map (\<lambda>u. (fst u, flight_number (snd u)))
        (update_calls (run sample_ext ?col
           (table_text
              [sample_row ''2020 Dec'' ''SLC-40'' ''Alpha'',
               sample_row ''2021'' ''SLC-4E'' ''Charlie''])))
       = [(''Charlie'', 51), (''Alpha'', 50)]"
    by code_simp
  note t = ordinal_is_base_plus_position [where col = ?col and e = sample_ext
      and p = "''Charlie''" and m = "''Charlie''" and dates = ?dates and j = 1
      and c = "\<lparr>precision = ''year'', tbd = True, is_tentative = True\<rparr>" and b = 50
      and sites = "[Some ''vafb_slc_4e'']" and launchpads = "[''SLC-40'', ''SLC-4E'']"
      and i = 0 and st = init_state and q = "[]" and ct' = undefined and manifest = "[]"]
  from t h1 have "base_flight_number (find_past ?col)
        = Some (Max (launch_flight_number ` {l \<in> set ?col. \<not> launch_upcoming l}) + 1)"
    by blast
  with h2 have a: "Max (launch_flight_number ` {l \<in> set ?col. \<not> launch_upcoming l}) + 1 = 50"
    by simp
  from t h3 h4 have "flight_numbers (match_body sample_ext 50 [Some ''vafb_slc_4e''] ?dates
        [''SLC-40'', ''SLC-4E''] ''Charlie'' 0 ''Charlie'' 1 init_state)
      = flight_numbers init_state @ [50 + int 1]"
    by blast
  then have b: "flight_numbers (match_body sample_ext 50 [Some ''vafb_slc_4e''] ?dates
        [''SLC-40'', ''SLC-4E''] ''Charlie'' 0 ''Charlie'' 1 init_state) = [51]"
    by (simp add: init_state_def)
  from h4 have h4': "classify_date ''2021''
      = Some \<lparr>precision = ''year'', tbd = True, is_tentative = True\<rparr>"
    by simp
  from h1 a h3 h4' b h5 show ?thesis by blast
qed

section \<open>The substring tests of the cascade\<close>

lemma starts_with_iff: "starts_with s p \<longleftrightarrow> (\<exists>v. s = p @ v)"
  by (induction s p rule: starts_with.induct) auto

lemma includes_iff: "js_includes s p \<longleftrightarrow> (\<exists>u v. s = u @ p @ v)"
proof (induction s)
  case Nil
  show ?case by (cases p) auto
next
  case (Cons c cs)
  show ?case (is "?L \<longleftrightarrow> ?R")
  proof
    assume ?L
    then consider "starts_with (c # cs) p" | "js_includes cs p" by auto
    then show ?R
    proof cases
      case 1
      then obtain v where "c # cs = [] @ p @ v" by (auto simp: starts_with_iff)
      then show ?thesis by blast
    next
      case 2
      then obtain u v where "cs = u @ p @ v" using Cons.IH by blast
      then have "c # cs = (c # u) @ p @ v" by simp
      then show ?thesis by blast
    qed
  next
    assume ?R
    then obtain u v where uv: "c # cs = u @ p @ v" by blast
    show ?L
    proof (cases u)
      case Nil
      with uv have "starts_with (c # cs) p" by (auto simp: starts_with_iff)
      then show ?thesis by simp
    next
      case (Cons a u')
      with uv have "cs = u' @ p @ v" by simp
      then have "js_includes cs p" using Cons.IH by blast
      then show ?thesis by simp
    qed
  qed
qed

text \<open>
  Claim C9, as amended. The first three branches of the cascade test plain containment and
  not an anchored pattern: every string with an upper-case \<^verbatim>\<open>Q\<close> anywhere is classified
  \<^verbatim>\<open>quarter\<close>, and every string without \<^verbatim>\<open>Q\<close> that has \<^verbatim>\<open>H1\<close> or \<^verbatim>\<open>H2\<close> anywhere is
  classified \<^verbatim>\<open>half\<close>, whatever its shape and whichever of the anchored patterns it
  matches. The test for \<^verbatim>\<open>Q\<close> comes before the tests for \<^verbatim>\<open>H1\<close> and \<^verbatim>\<open>H2\<close>, so a string
  with both, as \<^verbatim>\<open>2020 H1 (Q2)\<close>, is a quarter.
\<close>

theorem substring_tests_come_first:
  "(js_includes s ''Q'' \<longrightarrow>
      classify_date s = Some \<lparr>precision = ''quarter'', tbd = True, is_tentative = True\<rparr>)
   \<and> (\<not> js_includes s ''Q'' \<and> (js_includes s ''H1'' \<or> js_includes s ''H2'') \<longrightarrow>
      classify_date s = Some \<lparr>precision = ''half'', tbd = True, is_tentative = True\<rparr>)
   \<and> js_includes s ''Q'' = (CHR ''Q'' \<in> set s)
   \<and> js_includes s ''H1'' = (\<exists>u v. s = u @ ''H1'' @ v)
   \<and> js_includes s ''H2'' = (\<exists>u v. s = u @ ''H2'' @ v)"
proof (intro conjI impI)
  show "classify_date s = Some \<lparr>precision = ''quarter'', tbd = True, is_tentative = True\<rparr>"
    if "js_includes s ''Q''"
    using that by (simp add: classify_date_def)
  show "classify_date s = Some \<lparr>precision = ''half'', tbd = True, is_tentative = True\<rparr>"
    if "\<not> js_includes s ''Q'' \<and> (js_includes s ''H1'' \<or> js_includes s ''H2'')"
    using that by (auto simp: classify_date_def)
  show "js_includes s ''Q'' = (CHR ''Q'' \<in> set s)"
    by (rule includes1)
  show "js_includes s ''H1'' = (\<exists>u v. s = u @ ''H1'' @ v)"
    by (rule includes_iff)
  show "js_includes s ''H2'' = (\<exists>u v. s = u @ ''H2'' @ v)"
    by (rule includes_iff)
qed

theorem substring_tests_come_first_witness:
  "js_includes ''2020 AQU 4 14:10'' ''Q'' \<and> hour ''2020 AQU 4 14:10''
   \<and> classify_date ''2020 AQU 4 14:10''
       = Some \<lparr>precision = ''quarter'', tbd = True, is_tentative = True\<rparr>
   \<and> \<not> js_includes ''first H2 week'' ''Q'' \<and> js_includes ''first H2 week'' ''H2''
   \<and> classify_date ''first H2 week''
       = Some \<lparr>precision = ''half'', tbd = True, is_tentative = True\<rparr>"
proof -
  have h1: "js_includes ''2020 AQU 4 14:10'' ''Q''" by code_simp
  have h2: "hour ''2020 AQU 4 14:10''" by code_simp
  have h3: "\<not> js_includes ''first H2 week'' ''Q'' \<and> js_includes ''first H2 week'' ''H2''"
    by code_simp
  from substring_tests_come_first [of "''2020 AQU 4 14:10''"] h1
  have a: "classify_date ''2020 AQU 4 14:10''
       = Some \<lparr>precision = ''quarter'', tbd = True, is_tentative = True\<rparr>"
    by blast
  from substring_tests_come_first [of "''first H2 week''"] h3
  have b: "classify_date ''first H2 week''
       = Some \<lparr>precision = ''half'', tbd = True, is_tentative = True\<rparr>"
    by blast
  from h1 h2 h3 a b show ?thesis by blast
qed

theorem half_claim_counterexample:
  "js_includes ''2020 H1 (Q2)'' ''H1''
   \<and> classify_date ''2020 H1 (Q2)''
       = Some \<lparr>precision = ''quarter'', tbd = True, is_tentative = True\<rparr>
   \<and> map_option precision (classify_date ''2020 H1 (Q2)'') \<noteq> Some ''half''"
  by code_simp

section \<open>The order of the cascade\<close>

lemma find_first:
  "i < length xs \<Longrightarrow> P (xs ! i) \<Longrightarrow> \<forall>k<i. \<not> P (xs ! k) \<Longrightarrow> find P xs = Some (xs ! i)"
proof (induction xs arbitrary: i)
  case Nil
  then show ?case by simp
next
  case (Cons x xs)
  show ?case
  proof (cases i)
    case 0
    with Cons.prems show ?thesis by simp
  next
    case (Suc n)
    with Cons.prems have "\<not> P x" by auto
    moreover from Suc Cons.prems have "find P xs = Some (xs ! n)"
      by (intro Cons.IH) auto
    ultimately show ?thesis using Suc by simp
  qed
qed

lemma classify_first_match: "classify_date s = first_match cascade s"
  by (simp add: classify_date_def first_match_def cascade_def)

lemma month_tbd_first:
  assumes "month_tbd s"
  shows "\<not> year_tbd s \<and> \<not> year s \<and> \<not> month s"
proof -
  from month_tbd_shape [OF assms] obtain y m t where sh: "toks s = [y, m, t]" by blast
  have "\<not> year_tbd s" using year_tbd_shape [of s] sh by auto
  moreover have "\<not> year s" using year_shape [of s] sh by auto
  moreover have "\<not> month s" using month_shape [of s] sh by auto
  ultimately show ?thesis by blast
qed

section \<open>Duplicate flight numbers\<close>

lemma duplicate_test: "length (remdups xs) < length xs \<longleftrightarrow> \<not> distinct xs"
proof (induction xs)
  case Nil
  show ?case by simp
next
  case (Cons x xs)
  have "length (remdups xs) \<le> length xs" by (rule length_remdups_leq)
  with Cons show ?case by (auto simp: less_Suc_eq_le)
qed

lemma loop_lengths:
  "length (promises (match_loop e b payloads sites dates mps lps init_state))
     = length (flight_numbers (match_loop e b payloads sites dates mps lps init_state))"
  by (simp add: loop_promises loop_flight_numbers init_state_def)

lemma not_distinct_two: "\<not> distinct xs \<Longrightarrow> 2 \<le> length xs"
  by (cases xs rule: list.exhaust [case_names Nil Cons]; cases "tl xs") auto

section \<open>The labels of the report\<close>

lemma count_replicate: "count_list (replicate n y) x = (if x = y then n else 0)"
  by (induction n) auto

lemma count_blocks:
  "count_list (concat (map (\<lambda>p. replicate (f p) p) ps)) x = f x * count_list ps x"
  by (induction ps) (simp_all add: count_replicate)

lemma count_prefix: "prefix r ps \<Longrightarrow> count_list r x \<le> count_list ps x"
  by (auto elim!: prefixE)

lemma blocks_at_most_one:
  assumes "prefix (concat (map (\<lambda>p. replicate (f p) p) ps)) ps" and "x \<in> set ps"
  shows "f x \<le> 1"
proof -
  have "f x * count_list ps x \<le> count_list ps x"
    using count_prefix [OF assms(1), of x] by (simp only: count_blocks)
  moreover have "count_list ps x \<noteq> 0"
    using assms(2) by (simp add: count_list_0_iff)
  ultimately show ?thesis by simp
qed

lemma blocks_filter:
  "\<forall>x\<in>set ps. f x \<le> 1 \<Longrightarrow>
     concat (map (\<lambda>p. replicate (f p) p) ps) = filter (\<lambda>p. f p = 1) ps"
proof (induction ps)
  case Nil
  show ?case by simp
next
  case (Cons p ps)
  then have "f p = 0 \<or> f p = 1" by auto
  with Cons show ?case by auto
qed

lemma filter_prefix_split:
  "prefix (filter P ps) ps \<Longrightarrow> \<forall>x\<in>set (dropWhile P ps). \<not> P x"
proof (induction ps)
  case Nil
  show ?case by simp
next
  case (Cons p ps)
  show ?case
  proof (cases "P p")
    case True
    with Cons.prems have "prefix (filter P ps) ps" by simp
    then have "\<forall>x\<in>set (dropWhile P ps). \<not> P x" by (rule Cons.IH)
    moreover from True have "dropWhile P (p # ps) = dropWhile P ps" by simp
    ultimately show ?thesis by (simp only:)
  next
    case False
    with Cons.prems have pre: "prefix (filter P ps) (p # ps)" by simp
    show ?thesis
    proof (cases "filter P ps")
      case Nil
      then have "\<forall>x\<in>set ps. \<not> P x" by (simp add: filter_empty_conv)
      with False show ?thesis by simp
    next
      case (Cons y ys)
      then have "y \<in> set (filter P ps)" by simp
      then have "P y" by simp
      moreover from Cons pre have "y = p" by simp
      ultimately show ?thesis using False by simp
    qed
  qed
qed

lemma blocks_prefix_iff:
  "prefix (concat (map (\<lambda>p. replicate (f p) p) ps)) ps
   \<longleftrightarrow> (\<exists>front rest. ps = front @ rest \<and> (\<forall>p\<in>set front. f p = 1) \<and> (\<forall>p\<in>set rest. f p = 0))"
  (is "?L \<longleftrightarrow> ?R")
proof
  assume l: ?L
  then have one: "\<forall>x\<in>set ps. f x \<le> 1" by (blast intro: blocks_at_most_one)
  let ?P = "\<lambda>p. f p = 1"
  from l have "prefix (filter ?P ps) ps"
    by (simp only: blocks_filter [OF one])
  then have rest: "\<forall>x\<in>set (dropWhile ?P ps). f x \<noteq> 1" by (rule filter_prefix_split)
  have "\<forall>x\<in>set (dropWhile ?P ps). f x = 0"
  proof
    fix x assume x: "x \<in> set (dropWhile ?P ps)"
    then have "x \<in> set ps" by (rule set_dropWhileD)
    with one have "f x \<le> 1" by blast
    moreover from rest x have "f x \<noteq> 1" by blast
    ultimately show "f x = 0" by simp
  qed
  moreover have "\<forall>p\<in>set (takeWhile ?P ps). f p = 1" by (auto dest: set_takeWhileD)
  moreover have "ps = takeWhile ?P ps @ dropWhile ?P ps" by simp
  ultimately show ?R by blast
next
  assume ?R
  then obtain front rest where
    s: "ps = front @ rest" "\<forall>p\<in>set front. f p = 1" "\<forall>p\<in>set rest. f p = 0"
    by blast
  have a: "concat (map (\<lambda>p. replicate (f p) p) front) = front"
    using s(2) by (induction front) auto
  have b: "concat (map (\<lambda>p. replicate (f p) p) rest) = []"
    using s(3) by (induction rest) auto
  have "concat (map (\<lambda>p. replicate (f p) p) (front @ rest)) = front"
    by (simp add: a b)
  then show ?L unfolding s(1) by simp
qed

lemma loop_names:
  "map fst (promises (match_loop e b payloads sites dates mps lps init_state))
     = concat (map (\<lambda>p. replicate (updates_for e mps dates p) p) payloads)"
proof -
  let ?F = "\<lambda>ij. scored e payloads mps ij \<and> dated dates ij"
  have row: "map (\<lambda>ij. payloads ! fst ij) (filter ?F (map (Pair i) [0..<length mps]))
      = replicate (updates_for e mps dates (payloads ! i)) (payloads ! i)" for i
    by (simp add: filter_map comp_def scored_def dated_def updates_for_def map_replicate_const)
  have "map fst (promises (match_loop e b payloads sites dates mps lps init_state))
      = map (\<lambda>ij. payloads ! fst ij) (filter ?F (loop_pairs (length payloads) (length mps)))"
    by (simp add: loop_promises init_state_def update_of_def comp_def)
  also have "\<dots> = concat (map (\<lambda>i. map (\<lambda>ij. payloads ! fst ij)
                (filter ?F (map (Pair i) [0..<length mps]))) [0..<length payloads])"
    by (simp add: loop_pairs_def filter_concat map_concat comp_def)
  also have "\<dots> = concat (map (\<lambda>i. replicate (updates_for e mps dates (payloads ! i))
                (payloads ! i)) [0..<length payloads])"
    by (simp only: row)
  also have "\<dots> = concat (map (\<lambda>p. replicate (updates_for e mps dates p) p)
                (map (\<lambda>i. payloads ! i) [0..<length payloads]))"
    by (simp add: comp_def)
  also have "\<dots> = concat (map (\<lambda>p. replicate (updates_for e mps dates p) p) payloads)"
    by (simp only: map_nth)
  finally show ?thesis .
qed

lemma labels_right_iff:
  "labels_right payloads sent \<longleftrightarrow> prefix (map fst sent) payloads"
proof
  assume "labels_right payloads sent"
  then have a: "\<forall>k<length sent. k < length payloads \<and> payloads ! k = fst (sent ! k)"
    by (auto simp: labels_right_def list_all_iff label_at_def split: if_splits)
  then have len: "length sent \<le> length payloads"
    by (metis less_irrefl not_le_imp_less)
  have "map fst sent = take (length sent) payloads"
    using a len by (auto simp: list_eq_iff_nth_eq)
  then show "prefix (map fst sent) payloads"
    by (metis take_is_prefix)
next
  assume "prefix (map fst sent) payloads"
  then obtain rest where e: "payloads = map fst sent @ rest" by (auto elim: prefixE)
  have "label_at payloads k = Some (fst (sent ! k))" if "k < length sent" for k
    using that unfolding e by (simp add: label_at_def nth_append)
  then show "labels_right payloads sent"
    by (simp add: labels_right_def list_all_iff)
qed

lemma report_nth:
  "k < length output \<Longrightarrow>
     report payloads output ! k
       = Msg (render (label_at payloads k) @ (if output ! k \<noteq> 0 then '' UPDATED'' else []))"
  by (simp add: report_def nth_enumerate_eq)

lemma labels_right_split:
  "labels_right payloads (promises (match_loop e b payloads sites dates mps lps init_state))
   \<longleftrightarrow> (\<exists>front rest. payloads = front @ rest
          \<and> (\<forall>p\<in>set front. updates_for e mps dates p = 1)
          \<and> (\<forall>p\<in>set rest. updates_for e mps dates p = 0))"
  by (simp only: labels_right_iff loop_names blocks_prefix_iff)

section \<open>The abort on duplicate flight numbers\<close>

lemma run_by_state:
  "run e col manifest =
     (case run_state e col manifest of
        None \<Rightarrow> \<lparr>status = Threw, update_calls = [], submitted = [], printed = []\<rparr>
      | Some st \<Rightarrow> finish e (run_payloads col) st)"
  by (simp add: run_def run_state_def run_payloads_def Let_def split: option.splits)

lemma same_row_duplicates:
  assumes "i < length payloads" "i' < length payloads" "i \<noteq> i'" "j < length mps"
    and "partial_ratio e (payloads ! i) (mps ! j) = 100"
    and "partial_ratio e (payloads ! i') (mps ! j) = 100"
    and "classify_date (dates ! j) \<noteq> None"
  shows "\<not> distinct (flight_numbers (match_loop e b payloads sites dates mps lps init_state))"
proof
  let ?kept = "filter (\<lambda>ij. scored e payloads mps ij \<and> dated dates ij)
                 (loop_pairs (length payloads) (length mps))"
  let ?g = "\<lambda>ij :: nat \<times> nat. b + int (snd ij)"
  assume "distinct (flight_numbers (match_loop e b payloads sites dates mps lps init_state))"
  then have "distinct (map ?g ?kept)"
    by (simp add: loop_flight_numbers init_state_def)
  then have inj: "inj_on ?g (set ?kept)" by (simp add: distinct_map)
  from assms have "(i, j) \<in> set ?kept" "(i', j) \<in> set ?kept"
    by (simp_all add: in_loop_pairs scored_def dated_def)
  moreover have "?g (i, j) = ?g (i', j)" by simp
  ultimately have "(i, j) = (i', j)" using inj by (blast dest: inj_onD)
  with assms(3) show False by simp
qed

text \<open>
  Claim C1. When two matches get the same flight number, the whole run aborts: the script
  logs the duplicate and leaves with \<^verbatim>\<open>process.exit(1)\<close>, a non-zero exit, and no update
  reaches the store, because the exit comes in the turn of the event loop that queued the
  updates. The first part is the check of lines 231 to 234 on any state, the second is the
  whole script, and the third builds the duplicate: two payloads that both score 100 against
  one manifest row with a recognised date get the flight number of that row twice.
\<close>

theorem duplicate_ordinals_abort:
  "(\<not> distinct (flight_numbers st) \<longrightarrow>
      status (finish e payloads st) = Exited 1
      \<and> submitted (finish e payloads st) = []
      \<and> printed (finish e payloads st) = console st @ [Msg ''Duplicate flight numbers found''])
   \<and> (run_state e col manifest = Some st \<and> \<not> distinct (flight_numbers st) \<longrightarrow>
        status (run e col manifest) = Exited 1
        \<and> submitted (run e col manifest) = []
        \<and> printed (run e col manifest) = console st @ [Msg ''Duplicate flight numbers found''])
   \<and> (i < length payloads \<and> i' < length payloads \<and> i \<noteq> i' \<and> j < length mps
        \<and> partial_ratio e (payloads ! i) (mps ! j) = 100
        \<and> partial_ratio e (payloads ! i') (mps ! j) = 100
        \<and> classify_date (dates ! j) \<noteq> None \<longrightarrow>
          \<not> distinct (flight_numbers
               (match_loop e b payloads sites dates mps launchpads init_state))
          \<and> status (finish e payloads
               (match_loop e b payloads sites dates mps launchpads init_state)) = Exited 1
          \<and> submitted (finish e payloads
               (match_loop e b payloads sites dates mps launchpads init_state)) = [])"
proof (intro conjI impI)
  assume d: "\<not> distinct (flight_numbers st)"
  then show "status (finish e payloads st) = Exited 1"
    and "submitted (finish e payloads st) = []"
    and "printed (finish e payloads st) = console st @ [Msg ''Duplicate flight numbers found'']"
    by (simp_all add: finish_def duplicate_test)
next
  assume a: "run_state e col manifest = Some st \<and> \<not> distinct (flight_numbers st)"
  then have r: "run e col manifest = finish e (run_payloads col) st"
    by (simp add: run_by_state)
  from a show "status (run e col manifest) = Exited 1"
    and "submitted (run e col manifest) = []"
    and "printed (run e col manifest) = console st @ [Msg ''Duplicate flight numbers found'']"
    by (simp_all add: r finish_def duplicate_test)
next
  assume a: "i < length payloads \<and> i' < length payloads \<and> i \<noteq> i' \<and> j < length mps
        \<and> partial_ratio e (payloads ! i) (mps ! j) = 100
        \<and> partial_ratio e (payloads ! i') (mps ! j) = 100
        \<and> classify_date (dates ! j) \<noteq> None"
  let ?st = "match_loop e b payloads sites dates mps launchpads init_state"
  from a have "i < length payloads" "i' < length payloads" "i \<noteq> i'" "j < length mps"
    "partial_ratio e (payloads ! i) (mps ! j) = 100"
    "partial_ratio e (payloads ! i') (mps ! j) = 100"
    "classify_date (dates ! j) \<noteq> None"
    by blast+
  then show d: "\<not> distinct (flight_numbers ?st)"
    by (rule same_row_duplicates)
  then show "status (finish e payloads ?st) = Exited 1"
    and "submitted (finish e payloads ?st) = []"
    by (simp_all add: finish_def duplicate_test)
qed

theorem duplicate_ordinals_abort_witness:
  "(0::nat) < length [''SAOCOM 1B'', ''GNOMES-1''] \<and> 1 < length [''SAOCOM 1B'', ''GNOMES-1'']
   \<and> (0::nat) \<noteq> 1 \<and> 0 < length [''SAOCOM 1B, GNOMES-1'']
   \<and> partial_ratio sample_ext ([''SAOCOM 1B'', ''GNOMES-1''] ! 0) ([''SAOCOM 1B, GNOMES-1''] ! 0) = 100
   \<and> partial_ratio sample_ext ([''SAOCOM 1B'', ''GNOMES-1''] ! 1) ([''SAOCOM 1B, GNOMES-1''] ! 0) = 100
   \<and> classify_date ([''2020 Mar''] ! 0) \<noteq> None
   \<and> flight_numbers (match_loop sample_ext 50 [''SAOCOM 1B'', ''GNOMES-1'']
        [Some ''ccafs_slc_40'', Some ''ccafs_slc_40''] [''2020 Mar'']
        [''SAOCOM 1B, GNOMES-1''] [''SLC-40''] init_state) = [50, 50]
   \<and> status (finish sample_ext [''SAOCOM 1B'', ''GNOMES-1'']
        (match_loop sample_ext 50 [''SAOCOM 1B'', ''GNOMES-1'']
           [Some ''ccafs_slc_40'', Some ''ccafs_slc_40''] [''2020 Mar'']
           [''SAOCOM 1B, GNOMES-1''] [''SLC-40''] init_state)) = Exited 1
   \<and> submitted (finish sample_ext [''SAOCOM 1B'', ''GNOMES-1'']
        (match_loop sample_ext 50 [''SAOCOM 1B'', ''GNOMES-1'']
           [Some ''ccafs_slc_40'', Some ''ccafs_slc_40''] [''2020 Mar'']
           [''SAOCOM 1B, GNOMES-1''] [''SLC-40''] init_state)) = []
   \<and> status (run sample_ext
        [sample_launch 49 False ''Old'' ''ccafs_slc_40'',
         sample_launch 60 True ''SAOCOM 1B'' ''ccafs_slc_40'',
         sample_launch 61 True ''GNOMES-1'' ''ccafs_slc_40'']
        (table_text [sample_row ''2020 Mar'' ''SLC-40'' ''SAOCOM 1B, GNOMES-1''])) = Exited 1
   \<and> submitted (run sample_ext
        [sample_launch 49 False ''Old'' ''ccafs_slc_40'',
         sample_launch 60 True ''SAOCOM 1B'' ''ccafs_slc_40'',
         sample_launch 61 True ''GNOMES-1'' ''ccafs_slc_40'']
        (table_text [sample_row ''2020 Mar'' ''SLC-40'' ''SAOCOM 1B, GNOMES-1''])) = []
   \<and> last (printed (run sample_ext
        [sample_launch 49 False ''Old'' ''ccafs_slc_40'',
         sample_launch 60 True ''SAOCOM 1B'' ''ccafs_slc_40'',
         sample_launch 61 True ''GNOMES-1'' ''ccafs_slc_40'']
        (table_text [sample_row ''2020 Mar'' ''SLC-40'' ''SAOCOM 1B, GNOMES-1''])))
       = Msg ''Duplicate flight numbers found''"
proof -
  let ?ps = "[''SAOCOM 1B'', ''GNOMES-1'']"
  let ?col = "[sample_launch 49 False ''Old'' ''ccafs_slc_40'',
         sample_launch 60 True ''SAOCOM 1B'' ''ccafs_slc_40'',
         sample_launch 61 True ''GNOMES-1'' ''ccafs_slc_40'']"
  let ?man = "table_text [sample_row ''2020 Mar'' ''SLC-40'' ''SAOCOM 1B, GNOMES-1'']"
  let ?st = "match_loop sample_ext 50 ?ps [Some ''ccafs_slc_40'', Some ''ccafs_slc_40'']
      [''2020 Mar''] [''SAOCOM 1B, GNOMES-1''] [''SLC-40''] init_state"
  have h1: "(0::nat) < length ?ps \<and> 1 < length ?ps
      \<and> (0::nat) \<noteq> 1 \<and> 0 < length [''SAOCOM 1B, GNOMES-1'']
      \<and> partial_ratio sample_ext (?ps ! 0) ([''SAOCOM 1B, GNOMES-1''] ! 0) = 100
      \<and> partial_ratio sample_ext (?ps ! 1) ([''SAOCOM 1B, GNOMES-1''] ! 0) = 100
      \<and> classify_date ([''2020 Mar''] ! 0) \<noteq> None"
    by code_simp
  have h2: "flight_numbers ?st = [50, 50]" by code_simp
  have h3: "run_state sample_ext ?col ?man = Some ?st" by code_simp
  have h4: "last (printed (run sample_ext ?col ?man)) = Msg ''Duplicate flight numbers found''"
    by code_simp
  from h2 have nd: "\<not> distinct (flight_numbers ?st)" by simp
  note t = duplicate_ordinals_abort [where e = sample_ext and payloads = ?ps and i = 0
      and i' = 1 and j = 0 and mps = "[''SAOCOM 1B, GNOMES-1'']" and dates = "[''2020 Mar'']"
      and b = 50 and sites = "[Some ''ccafs_slc_40'', Some ''ccafs_slc_40'']"
      and launchpads = "[''SLC-40'']" and col = ?col and manifest = ?man and st = ?st]
  from t h1 have a: "status (finish sample_ext ?ps ?st) = Exited 1"
    "submitted (finish sample_ext ?ps ?st) = []"
    by blast+
  from t h3 nd have b: "status (run sample_ext ?col ?man) = Exited 1"
    "submitted (run sample_ext ?col ?man) = []"
    by blast+
  from h1 h2 a b h4 show ?thesis by blast
qed

section \<open>Matching\<close>

text \<open>
  Claim C2, as amended. A payload identifier and a manifest label are accepted as a match
  exactly when \<^verbatim>\<open>fuzz.partial_ratio\<close> gives 100: the callback changes the state for a pair
  exactly then, a pair with a lower score leaves it as it is, and every update of the loop
  for a payload belongs to a manifest row that scores 100 against it. A payload gets no
  update with the flight number of a row that scores below 100 against it, so two labels
  that the scorer rates below 100 against each other, as \<^verbatim>\<open>SSO-A\<close> and \<^verbatim>\<open>SSO-B\<close>, do not
  match across. A pair that scores 100 and has a recognised date always gets its update:
  the test does not look at what else differs, so a label that is another one with a
  character added at the end, which a partial ratio scores 100, does match across.
\<close>

theorem match_needs_full_score:
  "(match_body e b sites dates launchpads p i m j st \<noteq> st) = (partial_ratio e p m = 100)
   \<and> (partial_ratio e p m < 100 \<longrightarrow> match_body e b sites dates launchpads p i m j st = st)
   \<and> ((q, ct) \<in> set (promises (match_loop e b payloads sites dates mps launchpads init_state))
        \<longrightarrow> (\<exists>k<length mps. partial_ratio e q (mps ! k) = 100))
   \<and> (partial_ratio e q (mps ! k) < 100 \<longrightarrow>
        (\<forall>u\<in>set (promises (match_loop e b payloads sites dates mps launchpads init_state)).
           \<not> (fst u = q \<and> flight_number (snd u) = b + int k)))
   \<and> (i < length payloads \<and> k < length mps
        \<and> partial_ratio e (payloads ! i) (mps ! k) = 100
        \<and> classify_date (dates ! k) \<noteq> None \<longrightarrow>
          (\<exists>u\<in>set (promises (match_loop e b payloads sites dates mps launchpads init_state)).
             fst u = payloads ! i \<and> flight_number (snd u) = b + int k))"
proof (intro conjI impI)
  show "(match_body e b sites dates launchpads p i m j st \<noteq> st) = (partial_ratio e p m = 100)"
  proof (cases "partial_ratio e p m = 100")
    case True
    have "length (console (match_body e b sites dates launchpads p i m j st))
        > length (console st)"
      using True by (rule body_console_grows)
    then have "console (match_body e b sites dates launchpads p i m j st) \<noteq> console st"
      by auto
    then have "match_body e b sites dates launchpads p i m j st \<noteq> st" by auto
    with True show ?thesis by simp
  next
    case False
    then show ?thesis by (simp add: body_unmatched)
  qed
  show "match_body e b sites dates launchpads p i m j st = st" if "partial_ratio e p m < 100"
    using that by (simp add: body_unmatched)
  show "\<exists>k<length mps. partial_ratio e q (mps ! k) = 100"
    if "(q, ct) \<in> set (promises (match_loop e b payloads sites dates mps launchpads init_state))"
    using that unfolding in_loop_promises by (auto simp: update_of_def)
  show "\<forall>u\<in>set (promises (match_loop e b payloads sites dates mps launchpads init_state)).
           \<not> (fst u = q \<and> flight_number (snd u) = b + int k)"
    if low: "partial_ratio e q (mps ! k) < 100"
  proof
    fix u
    assume u: "u \<in> set (promises (match_loop e b payloads sites dates mps launchpads init_state))"
    obtain q' ct' where eq: "u = (q', ct')" by (cases u)
    from u eq have "(q', ct') \<in> set (promises
        (match_loop e b payloads sites dates mps launchpads init_state))"
      by simp
    then obtain i' j' where ij: "partial_ratio e (payloads ! i') (mps ! j') = 100"
      "(q', ct') = update_of e b payloads sites dates launchpads (i', j')"
      unfolding in_loop_promises by blast
    from ij(2) have q': "q' = payloads ! i'" and n: "flight_number ct' = b + int j'"
      by (simp_all add: update_of_def calculated_number)
    show "\<not> (fst u = q \<and> flight_number (snd u) = b + int k)"
    proof
      assume "fst u = q \<and> flight_number (snd u) = b + int k"
      with eq q' n have "payloads ! i' = q" "j' = k" by simp_all
      with ij(1) low show False by simp
    qed
  qed
  show "\<exists>u\<in>set (promises (match_loop e b payloads sites dates mps launchpads init_state)).
             fst u = payloads ! i \<and> flight_number (snd u) = b + int k"
    if a: "i < length payloads \<and> k < length mps
        \<and> partial_ratio e (payloads ! i) (mps ! k) = 100
        \<and> classify_date (dates ! k) \<noteq> None"
  proof -
    let ?u = "update_of e b payloads sites dates launchpads (i, k)"
    have "(fst ?u, snd ?u) \<in> set (promises
        (match_loop e b payloads sites dates mps launchpads init_state))"
      unfolding in_loop_promises using a by auto
    then have m: "?u \<in> set (promises
        (match_loop e b payloads sites dates mps launchpads init_state))"
      by (simp only: prod.collapse)
    have "fst ?u = payloads ! i \<and> flight_number (snd ?u) = b + int k"
      by (simp add: update_of_def calculated_number)
    with m show ?thesis by (rule bexI [rotated])
  qed
qed

theorem match_needs_full_score_witness:
  "partial_ratio sample_ext ''SSO-A'' ''SSO-B'' < 100
   \<and> match_body sample_ext 50 [None] [''2020 Nov''] [''SLC-4E''] ''SSO-A'' 0 ''SSO-B'' 0 init_state
       = init_state
   \<and> (''SSO-A'', calculated sample_ext 50 None ''2020 Nov'' ''SLC-4E'' 0
         \<lparr>precision = ''month'', tbd = True, is_tentative = True\<rparr>)
       \<in> set (promises (match_loop sample_ext 50 [''SSO-A'', ''SSO-B''] [None, None]
            [''2020 Nov'', ''2020 Dec''] [''SSO-A'', ''SSO-B''] [''SLC-4E'', ''SLC-4E''] init_state))
   \<and> (\<exists>k<length [''SSO-A'', ''SSO-B'']. 
         partial_ratio sample_ext ''SSO-A'' ([''SSO-A'', ''SSO-B''] ! k) = 100)
   \<and> partial_ratio sample_ext ''SSO-A'' ([''SSO-A'', ''SSO-B''] ! 1) < 100
   \<and> \<not> (\<exists>u\<in>set (promises (match_loop sample_ext 50 [''SSO-A'', ''SSO-B''] [None, None]
            [''2020 Nov'', ''2020 Dec''] [''SSO-A'', ''SSO-B''] [''SLC-4E'', ''SLC-4E''] init_state)).
         fst u = ''SSO-A'' \<and> flight_number (snd u) = 50 + int 1)
   \<and> (1::nat) < length [''SSO-A'', ''SSO-B''] \<and> (1::nat) < length [''SSO-A'', ''SSO-B'']
   \<and> partial_ratio sample_ext ([''SSO-A'', ''SSO-B''] ! 1) ([''SSO-A'', ''SSO-B''] ! 1) = 100
   \<and> classify_date ([''2020 Nov'', ''2020 Dec''] ! 1) \<noteq> None
   \<and> (\<exists>u\<in>set (promises (match_loop sample_ext 50 [''SSO-A'', ''SSO-B''] [None, None]
            [''2020 Nov'', ''2020 Dec''] [''SSO-A'', ''SSO-B''] [''SLC-4E'', ''SLC-4E''] init_state)).
         fst u = [''SSO-A'', ''SSO-B''] ! 1 \<and> flight_number (snd u) = 50 + int 1)
   \<and> map (\<lambda>u. (fst u, flight_number (snd u)))
        (promises (match_loop sample_ext 50 [''SSO-A'', ''SSO-B''] [None, None]
            [''2020 Nov'', ''2020 Dec''] [''SSO-A'', ''SSO-B''] [''SLC-4E'', ''SLC-4E''] init_state))
       = [(''SSO-A'', 50), (''SSO-B'', 51)]"
proof -
  let ?ct = "calculated sample_ext 50 None ''2020 Nov'' ''SLC-4E'' 0
         \<lparr>precision = ''month'', tbd = True, is_tentative = True\<rparr>"
  let ?loop = "match_loop sample_ext 50 [''SSO-A'', ''SSO-B''] [None, None]
            [''2020 Nov'', ''2020 Dec''] [''SSO-A'', ''SSO-B''] [''SLC-4E'', ''SLC-4E''] init_state"
  have h1: "partial_ratio sample_ext ''SSO-A'' ''SSO-B'' < 100"
    by code_simp
  have h2: "(''SSO-A'', ?ct) \<in> set (promises ?loop)"
    by code_simp
  have h3: "map (\<lambda>u. (fst u, flight_number (snd u))) (promises ?loop)
       = [(''SSO-A'', 50), (''SSO-B'', 51)]"
    by code_simp
  have h4: "partial_ratio sample_ext ''SSO-A'' ([''SSO-A'', ''SSO-B''] ! 1) < 100"
    by code_simp
  have h5: "(1::nat) < length [''SSO-A'', ''SSO-B''] \<and> (1::nat) < length [''SSO-A'', ''SSO-B'']
   \<and> partial_ratio sample_ext ([''SSO-A'', ''SSO-B''] ! 1) ([''SSO-A'', ''SSO-B''] ! 1) = 100
   \<and> classify_date ([''2020 Nov'', ''2020 Dec''] ! 1) \<noteq> None"
    by code_simp
  note t = match_needs_full_score [where e = sample_ext and p = "''SSO-A''" and m = "''SSO-B''"
      and b = 50 and sites = "[None]" and dates = "[''2020 Nov'']" and launchpads = "[''SLC-4E'']"
      and i = 0 and j = 0 and st = init_state and q = "''SSO-A''" and ct = ?ct
      and payloads = "[]" and mps = "[]" and k = 0]
  from t h1 have a: "match_body sample_ext 50 [None] [''2020 Nov''] [''SLC-4E''] ''SSO-A'' 0
      ''SSO-B'' 0 init_state = init_state"
    by blast
  note u = match_needs_full_score [where e = sample_ext and b = 50
      and payloads = "[''SSO-A'', ''SSO-B'']" and sites = "[None, None]"
      and dates = "[''2020 Nov'', ''2020 Dec'']" and mps = "[''SSO-A'', ''SSO-B'']"
      and launchpads = "[''SLC-4E'', ''SLC-4E'']" and q = "''SSO-A''" and ct = ?ct
      and k = 1 and i = 1 and p = "[]" and m = "[]" and j = 0 and st = init_state]
  from u h2 have c: "\<exists>k<length [''SSO-A'', ''SSO-B''].
         partial_ratio sample_ext ''SSO-A'' ([''SSO-A'', ''SSO-B''] ! k) = 100"
    by blast
  from u h4 have d: "\<not> (\<exists>u\<in>set (promises ?loop).
         fst u = ''SSO-A'' \<and> flight_number (snd u) = 50 + int 1)"
    by blast
  from u h5 have f: "\<exists>u\<in>set (promises ?loop).
         fst u = [''SSO-A'', ''SSO-B''] ! 1 \<and> flight_number (snd u) = 50 + int 1"
    by blast
  from h1 a h2 c h4 d h5 f h3 show ?thesis by blast
qed

text \<open>
  The claim without the amendment fails for \<^verbatim>\<open>SSO-A\<close> and \<^verbatim>\<open>SSO-A1\<close>, which differ only by
  the trailing character: each contains the other or is contained in it, both scores are
  100, and each payload gets the updates of both rows.
\<close>

theorem trailing_character_counterexample:
  "partial_ratio containment_ext ''SSO-A'' ''SSO-A1'' = 100
   \<and> partial_ratio containment_ext ''SSO-A1'' ''SSO-A'' = 100
   \<and> map (\<lambda>u. (fst u, flight_number (snd u)))
        (promises (match_loop containment_ext 50 [''SSO-A'', ''SSO-A1''] [None, None]
            [''2020 Nov'', ''2020 Dec''] [''SSO-A'', ''SSO-A1''] [''SLC-4E'', ''SLC-4E''] init_state))
       = [(''SSO-A'', 50), (''SSO-A'', 51), (''SSO-A1'', 50), (''SSO-A1'', 51)]"
  by code_simp

section \<open>The flags of the pattern families\<close>

lemma in_some_tok: "c \<in> set s \<Longrightarrow> \<not> is_space c \<Longrightarrow> \<exists>tok\<in>set (toks s). c \<in> set tok"
proof (induction s)
  case Nil
  then show ?case by simp
next
  case (Cons x xs)
  obtain t ts where tt: "toks xs = t # ts"
    using toks_nonempty [of xs] by (cases "toks xs") auto
  show ?case
  proof (cases "c = x")
    case True
    with Cons.prems tt show ?thesis by simp
  next
    case False
    with Cons.prems have "c \<in> set xs" by simp
    from Cons.IH [OF this Cons.prems(2)] obtain tok where
      tok: "tok \<in> set (toks xs)" "c \<in> set tok" by blast
    show ?thesis
    proof (cases "is_space x")
      case True
      with tok show ?thesis by auto
    next
      case sp: False
      from tok tt have "tok = t \<or> tok \<in> set ts" by simp
      then show ?thesis
      proof
        assume "tok = t"
        with tok sp tt show ?thesis by simp
      next
        assume "tok \<in> set ts"
        with tok sp tt show ?thesis by auto
      qed
    qed
  qed
qed

lemma month_name_no_Q: "month_name w \<Longrightarrow> CHR ''Q'' \<notin> set w"
proof
  assume m: "month_name w" and q: "CHR ''Q'' \<in> set w"
  from q have "to_upper CHR ''Q'' \<in> set (map to_upper w)" by simp
  then have "CHR ''Q'' \<in> set (map to_upper w)" by (simp only: upper_vals)
  moreover from m have "map to_upper w \<in> set month_names" by (simp add: month_name_def)
  ultimately have "\<exists>n\<in>set month_names. CHR ''Q'' \<in> set n" by blast
  then show False by (simp add: month_names_def)
qed

lemma alpha_Q: "is_alpha CHR ''Q''"
  by (simp add: is_alpha_def)

lemma hour_family_no_Q:
  assumes "hour_family s"
  shows "\<not> js_includes s ''Q''"
proof
  assume "js_includes s ''Q''"
  then have q: "CHR ''Q'' \<in> set s" by (simp add: includes1)
  from assms have h: "hour s" and mn: "month_name (month_word s)"
    by (simp_all add: hour_family_def)
  from hour_shape [OF h] obtain y m d t where
    sh: "toks s = [y, m, d, t]" "list_all is_digit y" "list_all is_alpha m" "list_all is_digit d"
      "list_all (\<lambda>c. \<not> is_alpha c) t"
    by blast
  from in_some_tok [OF q QH_class(2)] sh(1)
  have "CHR ''Q'' \<in> set y \<or> CHR ''Q'' \<in> set m \<or> CHR ''Q'' \<in> set d \<or> CHR ''Q'' \<in> set t"
    by auto
  moreover have "CHR ''Q'' \<notin> set y" "CHR ''Q'' \<notin> set d"
    using sh(2,4) QH_class(1) by (auto simp: list_all_iff)
  moreover have "CHR ''Q'' \<notin> set t"
    using sh(5) alpha_Q by (auto simp: list_all_iff)
  moreover from sh(1) have "month_word s = m" by (simp add: month_word_def)
  with mn have "CHR ''Q'' \<notin> set m" by (simp add: month_name_no_Q)
  ultimately show False by blast
qed

lemma day_family_no_Q:
  assumes "day_family s"
  shows "\<not> js_includes s ''Q''"
proof
  assume "js_includes s ''Q''"
  then have q: "CHR ''Q'' \<in> set s" by (simp add: includes1)
  from assms have h: "day s" and mn: "month_name (month_word s)"
    by (simp_all add: day_family_def)
  from day_shape [OF h] obtain y m d where
    sh: "toks s = [y, m, d]" "list_all is_digit y" "list_all is_alpha m" "list_all is_digit d"
    by blast
  from in_some_tok [OF q QH_class(2)] sh(1)
  have "CHR ''Q'' \<in> set y \<or> CHR ''Q'' \<in> set m \<or> CHR ''Q'' \<in> set d"
    by auto
  moreover have "CHR ''Q'' \<notin> set y" "CHR ''Q'' \<notin> set d"
    using sh(2,4) QH_class(1) by (auto simp: list_all_iff)
  moreover from sh(1) have "month_word s = m" by (simp add: month_word_def)
  with mn have "CHR ''Q'' \<notin> set m" by (simp add: month_name_no_Q)
  ultimately show False by blast
qed

lemma quarter_family_Q: "quarter_family s \<Longrightarrow> js_includes s ''Q''"
  unfolding quarter_family_def rx_defs by (auto simp: rx_in includes1)

lemma half_family_H:
  assumes "half_family s"
  shows "\<not> js_includes s ''Q'' \<and> (js_includes s ''H1'' \<or> js_includes s ''H2'')"
proof -
  from assms obtain y w where s: "s = y @ w # ''H1'' \<or> s = y @ w # ''H2''"
    and y: "list_all is_digit y" and w: "is_space w"
    unfolding half_family_def rx_defs by (auto simp: rx_in)
  have "CHR ''Q'' \<notin> set y" using y QH_class(1) by (auto simp: list_all_iff)
  moreover have "w \<noteq> CHR ''Q''" using w QH_class(2) by auto
  ultimately have "CHR ''Q'' \<notin> set s" using s by auto
  then have "\<not> js_includes s ''Q''" by (simp add: includes1)
  moreover from s have "s = (y @ [w]) @ ''H1'' @ [] \<or> s = (y @ [w]) @ ''H2'' @ []" by simp
  then have "js_includes s ''H1'' \<or> js_includes s ''H2''"
    unfolding includes_iff by blast
  ultimately show ?thesis by blast
qed

text \<open>
  Claim C4. Every string of the quarter family \<^verbatim>\<open>YYYY Q<n>\<close>, of the half family \<^verbatim>\<open>YYYY H1\<close>
  or \<^verbatim>\<open>YYYY H2\<close>, or of the year family, which is \<^verbatim>\<open>year\<close> and \<^verbatim>\<open>year_tbd\<close>, is classified
  tentative and to be determined, with the tier of its family. Every string of the hour
  family, a year, a month name, a day and a time with or without brackets, is classified
  neither, with the tier \<^verbatim>\<open>hour\<close>; every string of the day family, a year, a month name and
  a day, is classified not to be determined, and tentative, with the tier \<^verbatim>\<open>day\<close>. No
  month name has an upper-case \<^verbatim>\<open>Q\<close>, so the containment tests of the first branches
  leave the hour and day families alone.
\<close>

theorem flags_of_the_families:
  "(quarter_family s \<or> half_family s \<or> year_tbd s \<or> year s
      \<longrightarrow> (\<exists>c. classify_date s = Some c \<and> is_tentative c \<and> tbd c))
   \<and> (quarter_family s \<longrightarrow>
        classify_date s = Some \<lparr>precision = ''quarter'', tbd = True, is_tentative = True\<rparr>)
   \<and> (half_family s \<longrightarrow>
        classify_date s = Some \<lparr>precision = ''half'', tbd = True, is_tentative = True\<rparr>)
   \<and> (year_tbd s \<or> year s \<longrightarrow>
        classify_date s = Some \<lparr>precision = ''year'', tbd = True, is_tentative = True\<rparr>)
   \<and> (hour_family s \<longrightarrow>
        classify_date s = Some \<lparr>precision = ''hour'', tbd = False, is_tentative = False\<rparr>)
   \<and> (day_family s \<longrightarrow>
        classify_date s = Some \<lparr>precision = ''day'', tbd = False, is_tentative = True\<rparr>)"
proof -
  have q: "classify_date s = Some \<lparr>precision = ''quarter'', tbd = True, is_tentative = True\<rparr>"
    if "quarter_family s"
    using quarter_family_Q [OF that] by (simp add: classify_date_def)
  have h: "classify_date s = Some \<lparr>precision = ''half'', tbd = True, is_tentative = True\<rparr>"
    if "half_family s"
    using half_family_H [OF that] by (auto simp: classify_date_def)
  have y: "classify_date s = Some \<lparr>precision = ''year'', tbd = True, is_tentative = True\<rparr>"
    if "year_tbd s \<or> year s"
    using that year_no_QH [of s] year_tbd_no_QH [of s] by (auto simp: classify_date_def)
  have hr: "classify_date s = Some \<lparr>precision = ''hour'', tbd = False, is_tentative = False\<rparr>"
    if "hour_family s"
  proof -
    from that have "hour s" by (simp add: hour_family_def)
    with hour_first [of s] hour_family_no_Q [OF that] show ?thesis
      by (simp add: classify_date_def)
  qed
  have dy: "classify_date s = Some \<lparr>precision = ''day'', tbd = False, is_tentative = True\<rparr>"
    if "day_family s"
  proof -
    from that have "day s" by (simp add: day_family_def)
    with day_first [of s] day_family_no_Q [OF that] show ?thesis
      by (simp add: classify_date_def)
  qed
  have fl: "\<exists>c. classify_date s = Some c \<and> is_tentative c \<and> tbd c"
    if "quarter_family s \<or> half_family s \<or> year_tbd s \<or> year s"
    using that q h y by auto
  from q h y hr dy fl show ?thesis by blast
qed

theorem flags_of_the_families_witness:
  "quarter_family ''2020 Q3''
   \<and> classify_date ''2020 Q3''
       = Some \<lparr>precision = ''quarter'', tbd = True, is_tentative = True\<rparr>
   \<and> (\<exists>c. classify_date ''2020 Q3'' = Some c \<and> is_tentative c \<and> tbd c)
   \<and> half_family ''2020 H2''
   \<and> classify_date ''2020 H2'' = Some \<lparr>precision = ''half'', tbd = True, is_tentative = True\<rparr>
   \<and> year_tbd ''2020 TBD''
   \<and> classify_date ''2020 TBD'' = Some \<lparr>precision = ''year'', tbd = True, is_tentative = True\<rparr>
   \<and> year ''2020''
   \<and> classify_date ''2020'' = Some \<lparr>precision = ''year'', tbd = True, is_tentative = True\<rparr>
   \<and> hour_family ''2020 Nov 4 [14:10]''
   \<and> classify_date ''2020 Nov 4 [14:10]''
       = Some \<lparr>precision = ''hour'', tbd = False, is_tentative = False\<rparr>
   \<and> hour_family ''2020 september 14 09:05''
   \<and> classify_date ''2020 september 14 09:05''
       = Some \<lparr>precision = ''hour'', tbd = False, is_tentative = False\<rparr>
   \<and> day_family ''2020 Nov 4''
   \<and> classify_date ''2020 Nov 4'' = Some \<lparr>precision = ''day'', tbd = False, is_tentative = True\<rparr>"
proof -
  have h1: "quarter_family ''2020 Q3''" by code_simp
  have h2: "half_family ''2020 H2''" by code_simp
  have h3: "year_tbd ''2020 TBD''" by code_simp
  have h4: "year ''2020''" by code_simp
  have h5: "hour_family ''2020 Nov 4 [14:10]''" by code_simp
  have h6: "hour_family ''2020 september 14 09:05''" by code_simp
  have h7: "day_family ''2020 Nov 4''" by code_simp
  from flags_of_the_families [of "''2020 Q3''"] h1
  have a: "classify_date ''2020 Q3''
       = Some \<lparr>precision = ''quarter'', tbd = True, is_tentative = True\<rparr>"
    and a': "\<exists>c. classify_date ''2020 Q3'' = Some c \<and> is_tentative c \<and> tbd c"
    by blast+
  from flags_of_the_families [of "''2020 H2''"] h2
  have b: "classify_date ''2020 H2''
      = Some \<lparr>precision = ''half'', tbd = True, is_tentative = True\<rparr>" by blast
  from flags_of_the_families [of "''2020 TBD''"] h3
  have c: "classify_date ''2020 TBD''
      = Some \<lparr>precision = ''year'', tbd = True, is_tentative = True\<rparr>" by blast
  from flags_of_the_families [of "''2020''"] h4
  have d: "classify_date ''2020''
      = Some \<lparr>precision = ''year'', tbd = True, is_tentative = True\<rparr>" by blast
  from flags_of_the_families [of "''2020 Nov 4 [14:10]''"] h5
  have f: "classify_date ''2020 Nov 4 [14:10]''
       = Some \<lparr>precision = ''hour'', tbd = False, is_tentative = False\<rparr>" by blast
  from flags_of_the_families [of "''2020 september 14 09:05''"] h6
  have g: "classify_date ''2020 september 14 09:05''
       = Some \<lparr>precision = ''hour'', tbd = False, is_tentative = False\<rparr>" by blast
  from flags_of_the_families [of "''2020 Nov 4''"] h7
  have i: "classify_date ''2020 Nov 4''
      = Some \<lparr>precision = ''day'', tbd = False, is_tentative = True\<rparr>" by blast
  from h1 a a' h2 b h3 c h4 d h5 f h6 g h7 i show ?thesis by blast
qed

section \<open>Tests of the cascade that hold together\<close>

lemma Q_not_letter:
  "to_upper CHR ''Q'' \<noteq> to_upper CHR ''T''"
  "to_upper CHR ''Q'' \<noteq> to_upper CHR ''B''"
  "to_upper CHR ''Q'' \<noteq> to_upper CHR ''D''"
  "to_upper CHR ''Q'' \<noteq> to_upper CHR ''e''"
  "to_upper CHR ''Q'' \<noteq> to_upper CHR ''a''"
  "to_upper CHR ''Q'' \<noteq> to_upper CHR ''r''"
  "to_upper CHR ''Q'' \<noteq> to_upper CHR ''l''"
  "to_upper CHR ''Q'' \<noteq> to_upper CHR ''y''"
  "to_upper CHR ''Q'' \<noteq> to_upper CHR ''m''"
  "to_upper CHR ''Q'' \<noteq> to_upper CHR ''i''"
  "to_upper CHR ''Q'' \<noteq> to_upper CHR ''d''"
  "to_upper CHR ''Q'' \<noteq> to_upper CHR ''t''"
  by (simp_all add: to_upper_def)

lemma month_tbd_word:
  "month_tbd s \<Longrightarrow> \<exists>y m t. toks s = [y, m, t] \<and> list_all is_digit y \<and> list_all is_alpha m
     \<and> list_all is_alpha t \<and> CHR ''Q'' \<notin> set t"
  unfolding month_tbd_def rx_defs
  by (auto simp: rx_in tok_simps word_letters alpha_not_space Q_not_letter
           simp del: toks.simps)

lemma month_vague_word:
  "month_vague s \<Longrightarrow> \<exists>y v m. toks s = [y, v, m] \<and> list_all is_alpha v \<and> CHR ''Q'' \<notin> set v"
  unfolding month_vague_def rx_defs
  by (auto simp: rx_in tok_simps word_letters alpha_not_space Q_not_letter
           simp del: toks.simps)

lemma vague_tbd_first:
  assumes "month_tbd s" "month_vague s"
  shows "\<not> js_includes s ''Q'' \<and> \<not> js_includes s ''H1'' \<and> \<not> js_includes s ''H2''"
proof -
  from month_tbd_word [OF assms(1)] obtain y m t where
    a: "toks s = [y, m, t]" "list_all is_digit y" "list_all is_alpha t" "CHR ''Q'' \<notin> set t"
    by blast
  from month_vague_word [OF assms(2)] a(1) have
    b: "list_all is_alpha m" "CHR ''Q'' \<notin> set m"
    by auto
  have "\<not> js_includes s ''H1'' \<and> \<not> js_includes s ''H2''"
    using a b by (intro no_H_digit) auto
  moreover have "\<not> js_includes s ''Q''"
  proof
    assume "js_includes s ''Q''"
    then have "CHR ''Q'' \<in> set s" by (simp add: includes1)
    from in_some_tok [OF this QH_class(2)] a(1)
    have "CHR ''Q'' \<in> set y \<or> CHR ''Q'' \<in> set m \<or> CHR ''Q'' \<in> set t" by auto
    moreover have "CHR ''Q'' \<notin> set y" using a(2) QH_class(1) by (auto simp: list_all_iff)
    ultimately show False using a(4) b(2) by blast
  qed
  ultimately show ?thesis by blast
qed

lemma year_tbd_is_month:
  assumes "year_tbd s"
  shows "month s"
proof -
  from assms obtain p w a b c where s: "s = p @ [w, a, b, c]"
    and p: "length p = 4" "list_all is_digit p" and w: "is_space w"
    and l: "is_alpha a" "is_alpha b" "is_alpha c"
    unfolding year_tbd_def rx_defs by (auto simp: rx_in word_letters)
  have 1: "w # [a, b, c] \<in> set (rx_rep 4 4 (rx_class is_digit) s)"
    unfolding in_rx_rep_class_all using s p by simp
  have 2: "[a, b, c] \<in> set (rx_class is_space (w # [a, b, c]))"
    unfolding in_rx_class using w by simp
  have 3: "[] \<in> set (rx_rep 3 3 (rx_class is_alpha) [a, b, c])"
    unfolding in_rx_rep_class_all using l by simp
  from 1 2 3 show ?thesis
    unfolding month_def rx_defs by (auto simp: in_rx_then in_rx_or in_rx_eps)
qed


text \<open>
  Claim C5, as amended. The cascade tries its tests in a fixed order and returns the result
  of the first that applies: it equals the first match in the table of its ten rows, so a
  row that applies while no earlier row does gives the result, whichever later rows apply
  as well. Of the neighbouring tests, three pairs can hold for one string: \<^verbatim>\<open>Q\<close> with
  \<^verbatim>\<open>H1\<close> or \<^verbatim>\<open>H2\<close>, where the result is the quarter; \<^verbatim>\<open>H1\<close> with \<^verbatim>\<open>H2\<close>; and \<^verbatim>\<open>month_tbd\<close> with
  \<^verbatim>\<open>month_vague\<close>, where the result is that of \<^verbatim>\<open>month_tbd\<close>, the month with both flags
  set. Every string of \<^verbatim>\<open>year_tbd\<close> also matches \<^verbatim>\<open>month\<close>, which stands four rows later,
  and is a year. No string matches both \<^verbatim>\<open>month_tbd\<close> and \<^verbatim>\<open>month\<close>, and the other
  neighbouring tests exclude each other as well.
\<close>

theorem first_match_wins:
  "classify_date s = first_match cascade s
   \<and> (i < length cascade \<and> fst (cascade ! i) s \<and> (\<forall>k<i. \<not> fst (cascade ! k) s) \<longrightarrow>
        classify_date s = Some (snd (cascade ! i)))
   \<and> (js_includes s ''Q'' \<and> (js_includes s ''H1'' \<or> js_includes s ''H2'') \<longrightarrow>
        classify_date s = Some \<lparr>precision = ''quarter'', tbd = True, is_tentative = True\<rparr>)
   \<and> (\<not> js_includes s ''Q'' \<and> js_includes s ''H1'' \<and> js_includes s ''H2'' \<longrightarrow>
        classify_date s = Some \<lparr>precision = ''half'', tbd = True, is_tentative = True\<rparr>)
   \<and> (year_tbd s \<longrightarrow>
        month s
        \<and> classify_date s = Some \<lparr>precision = ''year'', tbd = True, is_tentative = True\<rparr>)
   \<and> (month_tbd s \<and> month_vague s \<longrightarrow>
        classify_date s = Some \<lparr>precision = ''month'', tbd = True, is_tentative = True\<rparr>)
   \<and> \<not> (month_tbd s \<and> month s)
   \<and> \<not> (js_includes s ''H2'' \<and> year_tbd s) \<and> \<not> (year_tbd s \<and> year s)
   \<and> \<not> (year s \<and> month_tbd s) \<and> \<not> (month_vague s \<and> month s)
   \<and> \<not> (month s \<and> day s) \<and> \<not> (day s \<and> hour s)"
proof -
  have c1: "classify_date s = first_match cascade s"
    by (rule classify_first_match)
  have c2: "classify_date s = Some (snd (cascade ! i))"
    if "i < length cascade \<and> fst (cascade ! i) s \<and> (\<forall>k<i. \<not> fst (cascade ! k) s)"
  proof -
    from that have "find (\<lambda>row. fst row s) cascade = Some (cascade ! i)"
      by (intro find_first) auto
    then show ?thesis by (simp add: classify_first_match first_match_def)
  qed
  have c3: "classify_date s = Some \<lparr>precision = ''quarter'', tbd = True, is_tentative = True\<rparr>"
    if "js_includes s ''Q'' \<and> (js_includes s ''H1'' \<or> js_includes s ''H2'')"
    using that by (simp add: classify_date_def)
  have c4: "classify_date s = Some \<lparr>precision = ''half'', tbd = True, is_tentative = True\<rparr>"
    if "\<not> js_includes s ''Q'' \<and> js_includes s ''H1'' \<and> js_includes s ''H2''"
    using that by (simp add: classify_date_def)
  have c5: "month s
      \<and> classify_date s = Some \<lparr>precision = ''year'', tbd = True, is_tentative = True\<rparr>"
    if "year_tbd s"
    using that year_tbd_no_QH [OF that] year_tbd_is_month [OF that]
    by (simp add: classify_date_def)
  have c6: "classify_date s = Some \<lparr>precision = ''month'', tbd = True, is_tentative = True\<rparr>"
    if "month_tbd s \<and> month_vague s"
  proof -
    from that have t: "month_tbd s" and v: "month_vague s" by blast+
    from vague_tbd_first [OF t v] month_tbd_first [OF t] t show ?thesis
      by (simp add: classify_date_def)
  qed
  have d1: "\<not> (month_tbd s \<and> month s)" "\<not> (year s \<and> month_tbd s)"
    using month_tbd_first [of s] by blast+
  have d2: "\<not> (js_includes s ''H2'' \<and> year_tbd s)"
    using year_tbd_no_QH [of s] by blast
  have d3: "\<not> (year_tbd s \<and> year s)"
    using year_tbd_shape [of s] year_shape [of s] by auto
  have d4: "\<not> (month_vague s \<and> month s)"
    using month_vague_shape [of s] month_shape [of s] by auto
  have d5: "\<not> (month s \<and> day s)"
    using day_first [of s] by blast
  have d6: "\<not> (day s \<and> hour s)"
    using hour_first [of s] by blast
  from c1 c2 c3 c4 c5 c6 d1 d2 d3 d4 d5 d6 show ?thesis by blast
qed

theorem first_match_wins_witness:
  "js_includes ''2020 H1 (Q2)'' ''Q'' \<and> js_includes ''2020 H1 (Q2)'' ''H1''
   \<and> classify_date ''2020 H1 (Q2)''
       = Some \<lparr>precision = ''quarter'', tbd = True, is_tentative = True\<rparr>
   \<and> \<not> js_includes ''H1 or H2'' ''Q'' \<and> js_includes ''H1 or H2'' ''H1''
   \<and> js_includes ''H1 or H2'' ''H2''
   \<and> classify_date ''H1 or H2'' = Some \<lparr>precision = ''half'', tbd = True, is_tentative = True\<rparr>
   \<and> year_tbd ''2020 TBD'' \<and> month ''2020 TBD''
   \<and> classify_date ''2020 TBD'' = Some \<lparr>precision = ''year'', tbd = True, is_tentative = True\<rparr>
   \<and> (3::nat) < length cascade \<and> fst (cascade ! 3) ''2020 TBD''
   \<and> \<not> fst (cascade ! 0) ''2020 TBD'' \<and> \<not> fst (cascade ! 1) ''2020 TBD''
   \<and> \<not> fst (cascade ! 2) ''2020 TBD''
   \<and> classify_date ''2020 TBD'' = Some (snd (cascade ! 3))
   \<and> month_tbd ''2020 late TBD'' \<and> month_vague ''2020 late TBD''
   \<and> classify_date ''2020 late TBD''
       = Some \<lparr>precision = ''month'', tbd = True, is_tentative = True\<rparr>"
proof -
  have h1: "js_includes ''2020 H1 (Q2)'' ''Q'' \<and> js_includes ''2020 H1 (Q2)'' ''H1''"
    by code_simp
  have h2: "\<not> js_includes ''H1 or H2'' ''Q'' \<and> js_includes ''H1 or H2'' ''H1''
      \<and> js_includes ''H1 or H2'' ''H2''"
    by code_simp
  have h3: "year_tbd ''2020 TBD''" by code_simp
  have n: "\<not> js_includes ''2020 TBD'' ''Q''" "\<not> js_includes ''2020 TBD'' ''H1''"
    "\<not> js_includes ''2020 TBD'' ''H2''"
    by code_simp+
  from h3 n have h4: "(3::nat) < length cascade \<and> fst (cascade ! 3) ''2020 TBD''
      \<and> \<not> fst (cascade ! 0) ''2020 TBD'' \<and> \<not> fst (cascade ! 1) ''2020 TBD''
      \<and> \<not> fst (cascade ! 2) ''2020 TBD''"
    by (simp add: cascade_def)
  have h5: "\<forall>k<3::nat. \<not> fst (cascade ! k) ''2020 TBD''"
  proof (intro allI impI)
    fix k :: nat
    assume "k < 3"
    then consider "k = 0" | "k = 1" | "k = 2" by linarith
    then show "\<not> fst (cascade ! k) ''2020 TBD''"
      using h4 by cases simp_all
  qed
  have h6: "month_tbd ''2020 late TBD'' \<and> month_vague ''2020 late TBD''"
    by code_simp
  from first_match_wins [of "''2020 H1 (Q2)''" 0] h1
  have a: "classify_date ''2020 H1 (Q2)''
       = Some \<lparr>precision = ''quarter'', tbd = True, is_tentative = True\<rparr>"
    by blast
  from first_match_wins [of "''H1 or H2''" 0] h2
  have b: "classify_date ''H1 or H2''
      = Some \<lparr>precision = ''half'', tbd = True, is_tentative = True\<rparr>"
    by blast
  note t = first_match_wins [of "''2020 TBD''" 3]
  from t h3 have c: "month ''2020 TBD''"
    "classify_date ''2020 TBD''
      = Some \<lparr>precision = ''year'', tbd = True, is_tentative = True\<rparr>"
    by blast+
  from t h4 h5 have d: "classify_date ''2020 TBD'' = Some (snd (cascade ! 3))"
    by blast
  from first_match_wins [of "''2020 late TBD''" 0] h6
  have f: "classify_date ''2020 late TBD''
       = Some \<lparr>precision = ''month'', tbd = True, is_tentative = True\<rparr>"
    by blast
  from h1 a h2 b h3 c h4 d h6 f show ?thesis by blast
qed

text \<open>
  The string the claim names, \<^verbatim>\<open>2020 Nov TBD\<close>, matches \<^verbatim>\<open>month_tbd\<close> and not \<^verbatim>\<open>month\<close>, and
  its classification is the one a plain month gets, as \<^verbatim>\<open>2020 Nov\<close> does.
\<close>

theorem month_tbd_claim_counterexample:
  "month_tbd ''2020 Nov TBD'' \<and> \<not> month ''2020 Nov TBD''
   \<and> month ''2020 Nov'' \<and> \<not> month_tbd ''2020 Nov''
   \<and> classify_date ''2020 Nov TBD''
       = Some \<lparr>precision = ''month'', tbd = True, is_tentative = True\<rparr>
   \<and> classify_date ''2020 Nov TBD'' = classify_date ''2020 Nov''"
  by code_simp

section \<open>The report of a completed run\<close>

lemma those_length: "those xs = Some ys \<Longrightarrow> length ys = length xs"
  by (induction xs arbitrary: ys) (auto split: option.splits)

lemma length_report: "length (report payloads settled) = length settled"
  by (simp add: report_def)

lemma run_completed:
  assumes "status (run e col manifest) = Completed"
  shows "\<exists>st settled. run_state e col manifest = Some st
     \<and> those (map (update_reply e) [0..<length (promises st)]) = Some settled
     \<and> length settled = length (promises st)
     \<and> submitted (run e col manifest) = promises st
     \<and> printed (run e col manifest) = console st @ report (run_payloads col) settled"
proof (cases "run_state e col manifest")
  case None
  with assms show ?thesis by (simp add: run_by_state)
next
  case (Some st)
  then have r: "run e col manifest = finish e (run_payloads col) st"
    by (simp add: run_by_state)
  from assms have d: "\<not> length (remdups (flight_numbers st)) < length (flight_numbers st)"
    unfolding r finish_def by (auto split: if_splits)
  from assms obtain settled where
    s: "those (map (update_reply e) [0..<length (promises st)]) = Some settled"
    unfolding r finish_def by (auto split: if_splits option.splits)
  from those_length [OF s] have "length settled = length (promises st)" by simp
  moreover from d s have "submitted (run e col manifest) = promises st"
    "printed (run e col manifest) = console st @ report (run_payloads col) settled"
    unfolding r finish_def by simp_all
  ultimately show ?thesis using Some s by blast
qed

lemma run_state_loop:
  assumes "run_state e col manifest = Some st"
  shows "\<exists>b. st = match_loop e b (run_payloads col) (map launch_site_id (find_upcoming col))
           (manifest_dates (manifest_row manifest)) (manifest_payloads (manifest_row manifest))
           (manifest_launchpads (manifest_row manifest)) init_state"
  using assms by (auto simp: run_state_def)

lemma run_labels_split:
  assumes "run_state e col manifest = Some st"
  shows "labels_right (run_payloads col) (promises st)
     \<longleftrightarrow> (\<exists>front rest. run_payloads col = front @ rest
            \<and> (\<forall>p\<in>set front. run_updates_for e manifest p = 1)
            \<and> (\<forall>p\<in>set rest. run_updates_for e manifest p = 0))"
proof -
  from run_state_loop [OF assms] obtain b where
    st: "st = match_loop e b (run_payloads col) (map launch_site_id (find_upcoming col))
           (manifest_dates (manifest_row manifest)) (manifest_payloads (manifest_row manifest))
           (manifest_launchpads (manifest_row manifest)) init_state"
    by blast
  show ?thesis unfolding st run_updates_for_def by (rule labels_right_split)
qed

lemma wrong_label:
  "\<not> labels_right payloads sent \<Longrightarrow>
     \<exists>k<length sent. label_at payloads k \<noteq> Some (fst (sent ! k))"
  by (auto simp: labels_right_def list_all_iff)

lemma split_two:
  assumes "ps = front @ rest" "\<forall>p\<in>set front. f p = (1::nat)" "\<forall>p\<in>set rest. f p = 0"
  shows "\<not> (\<exists>p\<in>set ps. 2 \<le> f p)"
proof
  assume "\<exists>p\<in>set ps. 2 \<le> f p"
  then obtain p where p: "p \<in> set ps" "2 \<le> f p" by blast
  from p(1) assms(1) have "p \<in> set front \<or> p \<in> set rest" by simp
  with assms(2,3) p(2) show False by auto
qed

lemma split_gap:
  assumes "ps = front @ rest" "\<forall>p\<in>set front. f p = (1::nat)" "\<forall>p\<in>set rest. f p = 0"
  shows "\<not> (\<exists>i j. i < j \<and> j < length ps \<and> f (ps ! i) = 0 \<and> 1 \<le> f (ps ! j))"
proof
  assume "\<exists>i j. i < j \<and> j < length ps \<and> f (ps ! i) = 0 \<and> 1 \<le> f (ps ! j)"
  then obtain i j where ij: "i < j" "j < length ps" "f (ps ! i) = 0" "1 \<le> f (ps ! j)"
    by blast
  have "\<not> i < length front"
  proof
    assume "i < length front"
    then have "ps ! i \<in> set front" by (simp add: assms(1) nth_append)
    with assms(2) ij(3) show False by auto
  qed
  with ij(1) have "\<not> j < length front" by simp
  with ij(2) have "ps ! j \<in> set rest" by (simp add: assms(1) nth_append)
  with assms(3) ij(4) show False by auto
qed

text \<open>
  Claim C10, as amended. The report labels the \<open>k\<close>-th settled update with \<^verbatim>\<open>payloads[k]\<close>,
  the \<open>k\<close>-th internal payload identifier (\<^verbatim>\<open>undefined\<close> past the end), and not with the
  payload of the \<open>k\<close>-th submitted update. Only a run that completes prints the report,
  after the log of the loop, with one line for each submitted update; a run that ends at
  line 63, on a duplicate flight number or on a rejected update prints no report line.
  Every label names the payload of its update exactly when the payload list is a front
  part with exactly one update for each payload, followed by payloads with none. So in
  every completed run in which a payload has two or more updates, or a payload without an
  update stands before one with an update, some line of the printed report has a label
  that is not the payload of the update it reports on.
\<close>

theorem report_labels_by_position:
  "(k < length settled \<longrightarrow>
      report payloads settled ! k
        = Msg (render (label_at payloads k) @ (if settled ! k \<noteq> 0 then '' UPDATED'' else [])))
   \<and> (status (run e col manifest) = Completed \<longrightarrow>
        (\<exists>st replies. run_state e col manifest = Some st
           \<and> length replies = length (promises st)
           \<and> submitted (run e col manifest) = promises st
           \<and> printed (run e col manifest) = console st @ report (run_payloads col) replies))
   \<and> (status (run e col manifest) = Completed
        \<and> ((\<exists>p\<in>set (run_payloads col). 2 \<le> run_updates_for e manifest p)
           \<or> (\<exists>i j. i < j \<and> j < length (run_payloads col)
                 \<and> run_updates_for e manifest (run_payloads col ! i) = 0
                 \<and> 1 \<le> run_updates_for e manifest (run_payloads col ! j))) \<longrightarrow>
        (\<exists>st replies n. run_state e col manifest = Some st
           \<and> length replies = length (promises st)
           \<and> submitted (run e col manifest) = promises st
           \<and> printed (run e col manifest) = console st @ report (run_payloads col) replies
           \<and> n < length replies
           \<and> printed (run e col manifest)
               ! (length (console st) + n)
               = Msg (render (label_at (run_payloads col) n)
                      @ (if replies ! n \<noteq> 0 then '' UPDATED'' else []))
           \<and> label_at (run_payloads col) n
               \<noteq> Some (fst (submitted (run e col manifest) ! n))))
   \<and> (run_state e col manifest = Some st' \<longrightarrow>
        (labels_right (run_payloads col) (promises st')
         \<longleftrightarrow> (\<exists>front rest. run_payloads col = front @ rest
                \<and> (\<forall>p\<in>set front. run_updates_for e manifest p = 1)
                \<and> (\<forall>p\<in>set rest. run_updates_for e manifest p = 0))))
   \<and> (status (run e col manifest) \<noteq> Completed \<longrightarrow>
        (case run_state e col manifest of
           None \<Rightarrow> printed (run e col manifest) = []
         | Some st \<Rightarrow> printed (run e col manifest) = console st
             \<or> printed (run e col manifest)
                 = console st @ [Msg ''Duplicate flight numbers found'']))"
proof -
  have c1: "report payloads settled ! k
        = Msg (render (label_at payloads k) @ (if settled ! k \<noteq> 0 then '' UPDATED'' else []))"
    if "k < length settled"
    using that by (rule report_nth)
  have c2: "\<exists>st replies. run_state e col manifest = Some st
           \<and> length replies = length (promises st)
           \<and> submitted (run e col manifest) = promises st
           \<and> printed (run e col manifest) = console st @ report (run_payloads col) replies"
    if "status (run e col manifest) = Completed"
    using run_completed [OF that] by blast
  have c3: "\<exists>st replies n. run_state e col manifest = Some st
           \<and> length replies = length (promises st)
           \<and> submitted (run e col manifest) = promises st
           \<and> printed (run e col manifest) = console st @ report (run_payloads col) replies
           \<and> n < length replies
           \<and> printed (run e col manifest)
               ! (length (console st) + n)
               = Msg (render (label_at (run_payloads col) n)
                      @ (if replies ! n \<noteq> 0 then '' UPDATED'' else []))
           \<and> label_at (run_payloads col) n \<noteq> Some (fst (submitted (run e col manifest) ! n))"
    if a: "status (run e col manifest) = Completed
        \<and> ((\<exists>p\<in>set (run_payloads col). 2 \<le> run_updates_for e manifest p)
           \<or> (\<exists>i j. i < j \<and> j < length (run_payloads col)
                 \<and> run_updates_for e manifest (run_payloads col ! i) = 0
                 \<and> 1 \<le> run_updates_for e manifest (run_payloads col ! j)))"
  proof -
    from a have comp: "status (run e col manifest) = Completed" by blast
    from run_completed [OF comp] obtain st replies where
      r: "run_state e col manifest = Some st" "length replies = length (promises st)"
        "submitted (run e col manifest) = promises st"
        "printed (run e col manifest) = console st @ report (run_payloads col) replies"
      by blast
    have "\<not> labels_right (run_payloads col) (promises st)"
    proof
      assume "labels_right (run_payloads col) (promises st)"
      then obtain front rest where s: "run_payloads col = front @ rest"
        "\<forall>p\<in>set front. run_updates_for e manifest p = 1"
        "\<forall>p\<in>set rest. run_updates_for e manifest p = 0"
        unfolding run_labels_split [OF r(1)] by blast
      from split_two [OF s] split_gap [OF s] a show False by blast
    qed
    from wrong_label [OF this] obtain n where
      n: "n < length (promises st)"
        "label_at (run_payloads col) n \<noteq> Some (fst (promises st ! n))"
      by blast
    from n(1) r(2) have nl: "n < length replies" by simp
    have "printed (run e col manifest)
               ! (length (console st) + n)
        = report (run_payloads col) replies ! n"
      unfolding r(4) by (simp add: nth_append)
    also have "\<dots> = Msg (render (label_at (run_payloads col) n)
                      @ (if replies ! n \<noteq> 0 then '' UPDATED'' else []))"
      using nl by (rule report_nth)
    finally have line: "printed (run e col manifest)
               ! (length (console st) + n)
        = Msg (render (label_at (run_payloads col) n)
                      @ (if replies ! n \<noteq> 0 then '' UPDATED'' else []))" .
    from n(2) r(3) have "label_at (run_payloads col) n
        \<noteq> Some (fst (submitted (run e col manifest) ! n))"
      by simp
    with r nl line show ?thesis by blast
  qed
  have c4: "labels_right (run_payloads col) (promises st')
         \<longleftrightarrow> (\<exists>front rest. run_payloads col = front @ rest
                \<and> (\<forall>p\<in>set front. run_updates_for e manifest p = 1)
                \<and> (\<forall>p\<in>set rest. run_updates_for e manifest p = 0))"
    if "run_state e col manifest = Some st'"
    using that by (rule run_labels_split)
  have c5: "(case run_state e col manifest of
           None \<Rightarrow> printed (run e col manifest) = []
         | Some st \<Rightarrow> printed (run e col manifest) = console st
             \<or> printed (run e col manifest)
                 = console st @ [Msg ''Duplicate flight numbers found''])"
    if "status (run e col manifest) \<noteq> Completed"
    using that unfolding run_by_state
    by (auto simp: finish_def split: option.splits if_splits)
  from c1 c2 c3 c4 c5 show ?thesis by blast
qed


theorem report_labels_by_position_witness:
  "(0::nat) < length [1::nat]
   \<and> report [''Alpha'', ''Bravo''] [1] ! 0 = Msg ''Alpha UPDATED''
   \<and> status (run sample_ext col_alpha_bravo (one_row ''Bravo'')) = Completed
   \<and> (0::nat) < 1 \<and> 1 < length (run_payloads col_alpha_bravo)
   \<and> run_updates_for sample_ext (one_row ''Bravo'') (run_payloads col_alpha_bravo ! 0) = 0
   \<and> 1 \<le> run_updates_for sample_ext (one_row ''Bravo'') (run_payloads col_alpha_bravo ! 1)
   \<and> (\<exists>st replies.
           run_state sample_ext col_alpha_bravo (one_row ''Bravo'') = Some st
           \<and> length replies = length (promises st)
           \<and> submitted (run sample_ext col_alpha_bravo (one_row ''Bravo'')) = promises st
           \<and> printed (run sample_ext col_alpha_bravo (one_row ''Bravo''))
               = console st @ report (run_payloads col_alpha_bravo) replies)
   \<and> (\<exists>st replies n.
           run_state sample_ext col_alpha_bravo (one_row ''Bravo'') = Some st
           \<and> length replies = length (promises st)
           \<and> submitted (run sample_ext col_alpha_bravo (one_row ''Bravo'')) = promises st
           \<and> printed (run sample_ext col_alpha_bravo (one_row ''Bravo''))
               = console st @ report (run_payloads col_alpha_bravo) replies
           \<and> n < length replies
           \<and> printed (run sample_ext col_alpha_bravo (one_row ''Bravo''))
               ! (length (console st) + n)
               = Msg (render (label_at (run_payloads col_alpha_bravo) n)
                      @ (if replies ! n \<noteq> 0 then '' UPDATED'' else []))
           \<and> label_at (run_payloads col_alpha_bravo) n
               \<noteq> Some (fst (submitted (run sample_ext col_alpha_bravo (one_row ''Bravo'')) ! n)))
   \<and> map fst (submitted (run sample_ext col_alpha_bravo (one_row ''Bravo''))) = [''Bravo'']
   \<and> last (printed (run sample_ext col_alpha_bravo (one_row ''Bravo''))) = Msg ''Alpha UPDATED''
   \<and> status (run sample_ext col_alpha (two_rows ''Alpha 1'' ''Alpha 2'')) = Completed
   \<and> ''Alpha'' \<in> set (run_payloads col_alpha)
   \<and> 2 \<le> run_updates_for sample_ext (two_rows ''Alpha 1'' ''Alpha 2'') ''Alpha''
   \<and> (\<exists>st replies n.
           run_state sample_ext col_alpha (two_rows ''Alpha 1'' ''Alpha 2'') = Some st
           \<and> length replies = length (promises st)
           \<and> submitted (run sample_ext col_alpha (two_rows ''Alpha 1'' ''Alpha 2'')) = promises st
           \<and> printed (run sample_ext col_alpha (two_rows ''Alpha 1'' ''Alpha 2''))
               = console st @ report (run_payloads col_alpha) replies
           \<and> n < length replies
           \<and> printed (run sample_ext col_alpha (two_rows ''Alpha 1'' ''Alpha 2''))
               ! (length (console st) + n)
               = Msg (render (label_at (run_payloads col_alpha) n)
                      @ (if replies ! n \<noteq> 0 then '' UPDATED'' else []))
           \<and> label_at (run_payloads col_alpha) n
               \<noteq> Some (fst (submitted
                     (run sample_ext col_alpha (two_rows ''Alpha 1'' ''Alpha 2'')) ! n)))
   \<and> map fst (submitted (run sample_ext col_alpha (two_rows ''Alpha 1'' ''Alpha 2'')))
       = [''Alpha'', ''Alpha'']
   \<and> last (printed (run sample_ext col_alpha (two_rows ''Alpha 1'' ''Alpha 2'')))
       = Msg ''undefined UPDATED''
   \<and> run_state sample_ext col_alpha_bravo (one_row ''Alpha'') \<noteq> None
   \<and> run_payloads col_alpha_bravo = [''Alpha''] @ [''Bravo'']
   \<and> run_updates_for sample_ext (one_row ''Alpha'') ''Alpha'' = 1
   \<and> run_updates_for sample_ext (one_row ''Alpha'') ''Bravo'' = 0
   \<and> labels_right (run_payloads col_alpha_bravo)
        (promises (the (run_state sample_ext col_alpha_bravo (one_row ''Alpha''))))
   \<and> status (run sample_ext col_alpha_alpha1 (one_row ''Alpha 1'')) = Exited 1
   \<and> run_state sample_ext col_alpha_alpha1 (one_row ''Alpha 1'') \<noteq> None
   \<and> (printed (run sample_ext col_alpha_alpha1 (one_row ''Alpha 1''))
         = console (the (run_state sample_ext col_alpha_alpha1 (one_row ''Alpha 1'')))
       \<or> printed (run sample_ext col_alpha_alpha1 (one_row ''Alpha 1''))
           = console (the (run_state sample_ext col_alpha_alpha1 (one_row ''Alpha 1'')))
             @ [Msg ''Duplicate flight numbers found''])"
proof -
  have h1: "(0::nat) < length [1::nat]" by simp
  have hA: "status (run sample_ext col_alpha_bravo (one_row ''Bravo'')) = Completed
   \<and> (0::nat) < 1 \<and> 1 < length (run_payloads col_alpha_bravo)
   \<and> run_updates_for sample_ext (one_row ''Bravo'') (run_payloads col_alpha_bravo ! 0) = 0
   \<and> 1 \<le> run_updates_for sample_ext (one_row ''Bravo'') (run_payloads col_alpha_bravo ! 1)"
    by code_simp
  have fA: "map fst (submitted (run sample_ext col_alpha_bravo (one_row ''Bravo''))) = [''Bravo'']
   \<and> last (printed (run sample_ext col_alpha_bravo (one_row ''Bravo''))) = Msg ''Alpha UPDATED''"
    by code_simp
  have hB: "status (run sample_ext col_alpha (two_rows ''Alpha 1'' ''Alpha 2'')) = Completed
   \<and> ''Alpha'' \<in> set (run_payloads col_alpha)
   \<and> 2 \<le> run_updates_for sample_ext (two_rows ''Alpha 1'' ''Alpha 2'') ''Alpha''"
    by code_simp
  have fB: "map fst (submitted (run sample_ext col_alpha (two_rows ''Alpha 1'' ''Alpha 2'')))
       = [''Alpha'', ''Alpha'']
   \<and> last (printed (run sample_ext col_alpha (two_rows ''Alpha 1'' ''Alpha 2'')))
       = Msg ''undefined UPDATED''"
    by code_simp
  have hC: "status (run sample_ext col_alpha_alpha1 (one_row ''Alpha 1'')) = Exited 1
   \<and> run_state sample_ext col_alpha_alpha1 (one_row ''Alpha 1'') \<noteq> None"
    by code_simp
  have hD: "run_state sample_ext col_alpha_bravo (one_row ''Alpha'') \<noteq> None"
    by code_simp
  have hD2: "run_payloads col_alpha_bravo = [''Alpha''] @ [''Bravo'']
   \<and> run_updates_for sample_ext (one_row ''Alpha'') ''Alpha'' = 1
   \<and> run_updates_for sample_ext (one_row ''Alpha'') ''Bravo'' = 0"
    by code_simp
  note t1 = report_labels_by_position [where k = 0 and settled = "[1]"
      and payloads = "[''Alpha'', ''Bravo'']" and e = sample_ext
      and col = col_alpha_bravo
      and manifest = "one_row ''Bravo''"
      and st' = init_state]
  from t1 h1 have "report [''Alpha'', ''Bravo''] [1] ! 0
      = Msg (render (label_at [''Alpha'', ''Bravo''] 0)
             @ (if [1::nat] ! 0 \<noteq> 0 then '' UPDATED'' else []))"
    by blast
  then have c1: "report [''Alpha'', ''Bravo''] [1] ! 0 = Msg ''Alpha UPDATED''"
    by (simp add: render_def label_at_def)
  from hA have gA: "\<exists>i j. i < j \<and> j < length (run_payloads col_alpha_bravo)
      \<and> run_updates_for sample_ext (one_row ''Bravo'') (run_payloads col_alpha_bravo ! i) = 0
      \<and> 1 \<le> run_updates_for sample_ext (one_row ''Bravo'') (run_payloads col_alpha_bravo ! j)"
    by blast
  from t1 hA have cA2: "(\<exists>st replies.
           run_state sample_ext col_alpha_bravo (one_row ''Bravo'') = Some st
           \<and> length replies = length (promises st)
           \<and> submitted (run sample_ext col_alpha_bravo (one_row ''Bravo'')) = promises st
           \<and> printed (run sample_ext col_alpha_bravo (one_row ''Bravo''))
               = console st @ report (run_payloads col_alpha_bravo) replies)"
    by blast
  from t1 hA gA have cA: "(\<exists>st replies n.
           run_state sample_ext col_alpha_bravo (one_row ''Bravo'') = Some st
           \<and> length replies = length (promises st)
           \<and> submitted (run sample_ext col_alpha_bravo (one_row ''Bravo'')) = promises st
           \<and> printed (run sample_ext col_alpha_bravo (one_row ''Bravo''))
               = console st @ report (run_payloads col_alpha_bravo) replies
           \<and> n < length replies
           \<and> printed (run sample_ext col_alpha_bravo (one_row ''Bravo''))
               ! (length (console st) + n)
               = Msg (render (label_at (run_payloads col_alpha_bravo) n)
                      @ (if replies ! n \<noteq> 0 then '' UPDATED'' else []))
           \<and> label_at (run_payloads col_alpha_bravo) n
               \<noteq> Some (fst (submitted (run sample_ext col_alpha_bravo (one_row ''Bravo'')) ! n)))"
    by blast
  note t2 = report_labels_by_position [where k = 0 and settled = "[]"
      and payloads = "[]" and e = sample_ext
      and col = col_alpha
      and manifest = "two_rows ''Alpha 1'' ''Alpha 2''"
      and st' = init_state]
  from hB have gB: "\<exists>p\<in>set (run_payloads col_alpha).
      2 \<le> run_updates_for sample_ext (two_rows ''Alpha 1'' ''Alpha 2'') p"
    by blast
  from t2 hB gB have cB: "(\<exists>st replies n.
           run_state sample_ext col_alpha (two_rows ''Alpha 1'' ''Alpha 2'') = Some st
           \<and> length replies = length (promises st)
           \<and> submitted (run sample_ext col_alpha (two_rows ''Alpha 1'' ''Alpha 2'')) = promises st
           \<and> printed (run sample_ext col_alpha (two_rows ''Alpha 1'' ''Alpha 2''))
               = console st @ report (run_payloads col_alpha) replies
           \<and> n < length replies
           \<and> printed (run sample_ext col_alpha (two_rows ''Alpha 1'' ''Alpha 2''))
               ! (length (console st) + n)
               = Msg (render (label_at (run_payloads col_alpha) n)
                      @ (if replies ! n \<noteq> 0 then '' UPDATED'' else []))
           \<and> label_at (run_payloads col_alpha) n
               \<noteq> Some (fst (submitted
                     (run sample_ext col_alpha (two_rows ''Alpha 1'' ''Alpha 2'')) ! n)))"
    by blast
  note t3 = report_labels_by_position [where k = 0 and settled = "[]"
      and payloads = "[]" and e = sample_ext
      and col = col_alpha_bravo
      and manifest = "one_row ''Alpha''"
      and st' = "the (run_state sample_ext col_alpha_bravo (one_row ''Alpha''))"]
  from hD2 have gD: "\<exists>front rest. run_payloads col_alpha_bravo = front @ rest
      \<and> (\<forall>p\<in>set front. run_updates_for sample_ext (one_row ''Alpha'') p = 1)
      \<and> (\<forall>p\<in>set rest. run_updates_for sample_ext (one_row ''Alpha'') p = 0)"
    by (intro exI [of _ "[''Alpha'']"] exI [of _ "[''Bravo'']"]) simp
  from hD have sD: "run_state sample_ext col_alpha_bravo (one_row ''Alpha'')
      = Some (the (run_state sample_ext col_alpha_bravo (one_row ''Alpha'')))"
    by simp
  from t3 sD gD have cD: "labels_right (run_payloads col_alpha_bravo)
        (promises (the (run_state sample_ext col_alpha_bravo (one_row ''Alpha''))))"
    by blast
  note t4 = report_labels_by_position [where k = 0 and settled = "[]"
      and payloads = "[]" and e = sample_ext
      and col = col_alpha_alpha1
      and manifest = "one_row ''Alpha 1''"
      and st' = init_state]
  from hC have nC: "status (run sample_ext col_alpha_alpha1 (one_row ''Alpha 1'')) \<noteq> Completed"
    by simp
  from t4 nC have "case run_state sample_ext col_alpha_alpha1 (one_row ''Alpha 1'') of
           None \<Rightarrow> printed (run sample_ext col_alpha_alpha1 (one_row ''Alpha 1'')) = []
         | Some st \<Rightarrow>
             printed (run sample_ext col_alpha_alpha1 (one_row ''Alpha 1'')) = console st
             \<or> printed (run sample_ext col_alpha_alpha1 (one_row ''Alpha 1''))
                 = console st @ [Msg ''Duplicate flight numbers found'']"
    by blast
  with hC have cC: "(printed (run sample_ext col_alpha_alpha1 (one_row ''Alpha 1''))
         = console (the (run_state sample_ext col_alpha_alpha1 (one_row ''Alpha 1'')))
       \<or> printed (run sample_ext col_alpha_alpha1 (one_row ''Alpha 1''))
           = console (the (run_state sample_ext col_alpha_alpha1 (one_row ''Alpha 1'')))
             @ [Msg ''Duplicate flight numbers found''])"
    by (auto split: option.splits)
  from h1 c1 hA cA2 cA fA hB cB fB hD hD2 cD hC cC show ?thesis by blast
qed

text \<open>
  A run in which a payload has no update and no label is wrong: the payload without a
  match is the last of the list.
\<close>

theorem unmatched_last_counterexample:
  "run_updates_for sample_ext (one_row ''Alpha'') ''Bravo'' = 0
   \<and> ''Bravo'' \<in> set (run_payloads col_alpha_bravo)
   \<and> status (run sample_ext col_alpha_bravo (one_row ''Alpha'')) = Completed
   \<and> map fst (submitted (run sample_ext col_alpha_bravo (one_row ''Alpha''))) = [''Alpha'']
   \<and> drop (length (console (the (run_state sample_ext col_alpha_bravo (one_row ''Alpha'')))))
        (printed (run sample_ext col_alpha_bravo (one_row ''Alpha'')))
       = [Msg ''Alpha UPDATED'']
   \<and> labels_right (run_payloads col_alpha_bravo)
        (submitted (run sample_ext col_alpha_bravo (one_row ''Alpha'')))"
  by code_simp

end
